theory Spec2Isabelle
  imports Main "HOL-Library.Word"
begin

section \<open>Errors\<close>

text \<open>
  Go errors are values. The constructors below are the errors that the modelled
  functions build themselves; \<open>ErrSys\<close> stands for an error handed back by the
  operating system or by a library (stat, open, read, readlink, the tar writer, the
  pattern matcher, the YAML decoder).
\<close>

datatype error =
    ErrSys string
  | ErrExcludes "string list" error   \<comment> \<open>"processing excludes list %v: %w"\<close>
  | ErrNoSources                      \<comment> \<open>"no source(s) provided for build"\<close>
  | ErrNotRegular string              \<comment> \<open>"path %s must be a regular file"\<close>
  | ErrCheckExcluded string error     \<comment> \<open>"checking if %q is excluded: %w"\<close>
  | MultiError "error list"           \<comment> \<open>what \<open>merr.ErrorOrNil()\<close> returns: the collected errors\<close>
  | ErrKubeYAML error                 \<comment> \<open>"unable to read kube YAML: %w"\<close>
  | ErrKubePod error                  \<comment> \<open>"unable to read YAML as Kube Pod: %w"\<close>
  | ErrContentType string             \<comment> \<open>"Content-Type: %s is not supported. Should be ..."\<close>

section \<open>The file system seen by the walk\<close>

text \<open>\<open>syscall.Stat_t\<close>, the fields the archiver reads (linux/amd64 widths).\<close>

record stat_t =
  st_Dev :: "64 word"
  st_Ino :: "64 word"
  st_Nlink :: "64 word"
  st_Uid :: "32 word"
  st_Gid :: "32 word"

datatype filemode = ModeRegular | ModeDir | ModeSymlink | ModeIrregular

text \<open>\<open>fs.FileInfo\<close>: mode, size and the \<open>Sys()\<close> value.\<close>

record fileinfo =
  fi_Mode :: filemode
  fi_Size :: int
  fi_Sys :: stat_t

text \<open>
  A directory entry together with what the system calls made on it return. A regular
  file carries the result of \<open>Info()\<close>, of \<open>os.Open\<close>, its content, and the outcome of
  \<open>io.Copy\<close> (\<open>Some (n, e)\<close>: the copy fails with \<open>e\<close> after \<open>n\<close> bytes). A directory
  carries the result of \<open>Info()\<close>, of \<open>os.Open\<close>, a non-EOF failure of \<open>Readdir(1)\<close>,
  a failure of \<open>os.ReadDir\<close>, and its children in the order \<open>os.ReadDir\<close> lists them.
  A symlink carries the result of \<open>Info()\<close> and of \<open>os.Readlink\<close>. The file system does
  not change during one walk: the size that \<open>Info()\<close> reports for a regular file is the
  length of the content that \<open>io.Copy\<close> reads.
\<close>

datatype node =
    File "error + stat_t" "error option" string "(nat \<times> error) option"
  | Dir "error + stat_t" "error option" "error option" "error option" "(string \<times> node) list"
  | Symlink "error + stat_t" "error + string"
  | Irregular

fun IsDir :: "node \<Rightarrow> bool" where
  "IsDir (Dir _ _ _ _ _) = True"
| "IsDir _ = False"

fun IsRegular :: "node \<Rightarrow> bool" where
  "IsRegular (File _ _ _ _) = True"
| "IsRegular _ = False"

fun Info :: "node \<Rightarrow> error + fileinfo" where
  "Info (File st _ content _) =
     (case st of Inl e \<Rightarrow> Inl e
      | Inr s \<Rightarrow> Inr \<lparr>fi_Mode = ModeRegular, fi_Size = int (length content), fi_Sys = s\<rparr>)"
| "Info (Dir st _ _ _ _) =
     (case st of Inl e \<Rightarrow> Inl e
      | Inr s \<Rightarrow> Inr \<lparr>fi_Mode = ModeDir, fi_Size = 0, fi_Sys = s\<rparr>)"
| "Info (Symlink st _) =
     (case st of Inl e \<Rightarrow> Inl e
      | Inr s \<Rightarrow> Inr \<lparr>fi_Mode = ModeSymlink, fi_Size = 0, fi_Sys = s\<rparr>)"
| "Info Irregular = Inl (ErrSys ''irregular file'')"

section \<open>Hard-link identity (\<open>CheckHardLink\<close>)\<close>

datatype devino = Devino (Dev: "64 word") (Ino: "64 word")

definition CheckHardLink :: "fileinfo \<Rightarrow> devino \<times> bool" where
  "CheckHardLink fi =
     (let st = fi_Sys fi in (Devino (st_Dev st) (st_Ino st), 1 < st_Nlink st))"

section \<open>Tar headers and the tar writer\<close>

datatype typeflag = TypeReg | TypeLink | TypeSymlink | TypeDir

record header =
  Typeflag :: typeflag
  Name :: string
  Linkname :: string
  Size :: int
  Uid :: int
  Gid :: int

text \<open>
  \<open>tar.FileInfoHeader(fi, link)\<close> for the three kinds of entry the archiver passes to it.
  The name it derives from \<open>fi.Name()\<close> is left empty here: every branch of the archiver
  overwrites \<open>hdr.Name\<close> before the header is written.
\<close>

definition FileInfoHeader :: "fileinfo \<Rightarrow> string \<Rightarrow> error + header" where
  "FileInfoHeader fi link =
     (let u = uint (st_Uid (fi_Sys fi)); g = uint (st_Gid (fi_Sys fi)) in
      case fi_Mode fi of
        ModeRegular \<Rightarrow>
          Inr \<lparr>Typeflag = TypeReg, Name = [], Linkname = [], Size = fi_Size fi, Uid = u, Gid = g\<rparr>
      | ModeDir \<Rightarrow>
          Inr \<lparr>Typeflag = TypeDir, Name = [], Linkname = [], Size = 0, Uid = u, Gid = g\<rparr>
      | ModeSymlink \<Rightarrow>
          Inr \<lparr>Typeflag = TypeSymlink, Name = [], Linkname = link, Size = 0, Uid = u, Gid = g\<rparr>
      | ModeIrregular \<Rightarrow> Inl (ErrSys ''archive/tar: unknown file mode''))"

text \<open>
  The archive under construction: the entries written so far, each a header and the
  bytes written after it. Whether \<open>tw.WriteHeader\<close> fails (the reader closed the pipe, the
  header cannot be encoded) is decided by a parameter \<open>wfail\<close> of the archive so far and
  the header.
\<close>

type_synonym tarWriter = "(header \<times> string) list"

definition WriteHeader ::
  "(tarWriter \<Rightarrow> header \<Rightarrow> error option) \<Rightarrow> tarWriter \<Rightarrow> header \<Rightarrow> error option \<times> tarWriter" where
  "WriteHeader wfail w hdr =
     (case wfail w hdr of Some e \<Rightarrow> (Some e, w) | None \<Rightarrow> (None, w @ [(hdr, [])]))"

text \<open>Bytes written to the tar writer go to the entry whose header was written last.\<close>

definition tw_Write :: "tarWriter \<Rightarrow> string \<Rightarrow> tarWriter" where
  "tw_Write w bytes = (if w = [] then w else butlast w @ [(fst (last w), snd (last w) @ bytes)])"

definition io_Copy :: "tarWriter \<Rightarrow> string \<Rightarrow> (nat \<times> error) option \<Rightarrow> error option \<times> tarWriter" where
  "io_Copy w content fault =
     (case fault of
        None \<Rightarrow> (None, tw_Write w content)
      | Some (n, e) \<Rightarrow> (Some e, tw_Write w (take n content)))"

section \<open>Path helpers\<close>

definition IsAbs :: "string \<Rightarrow> bool" where
  "IsAbs p = (case p of [] \<Rightarrow> False | c # _ \<Rightarrow> c = CHR ''/'')"

fun HasPrefix :: "string \<Rightarrow> string \<Rightarrow> bool" where
  "HasPrefix s [] = True"
| "HasPrefix [] (p # ps) = False"
| "HasPrefix (c # cs) (p # ps) = (c = p \<and> HasPrefix cs ps)"

definition TrimPrefix :: "string \<Rightarrow> string \<Rightarrow> string" where
  "TrimPrefix s p = (if HasPrefix s p then drop (length p) s else s)"

text \<open>
  \<open>filepath.Clean\<close>, \<open>filepath.Join\<close> and \<open>filepath.Dir\<close> of the Go standard library where
  the separator is \<open>/\<close>. \<open>Clean\<close> drops empty and \<open>.\<close> elements, lets \<open>..\<close> remove the
  element before it (at the root it is dropped, at the start of a relative path it is
  kept), and gives \<open>.\<close> for an empty result. \<open>Join\<close> skips leading empty elements, joins
  the rest with the separator and cleans. \<open>Dir\<close> cleans what stands before the last
  element.
\<close>

fun splitSlash :: "string \<Rightarrow> string list" where
  "splitSlash [] = [[]]"
| "splitSlash (c # cs) =
     (if c = CHR ''/'' then [] # splitSlash cs
      else (case splitSlash cs of [] \<Rightarrow> [[c]] | x # xs \<Rightarrow> (c # x) # xs))"

definition cleanStep :: "bool \<Rightarrow> string list \<Rightarrow> string \<Rightarrow> string list" where
  "cleanStep rooted out el =
     (if el = [] \<or> el = ''.'' then out
      else if el = ''..'' then
        (if out \<noteq> [] \<and> last out \<noteq> ''..'' then butlast out
         else if rooted then out else out @ [''..''])
      else out @ [el])"

fun joinSlash :: "string list \<Rightarrow> string" where
  "joinSlash [] = []"
| "joinSlash [x] = x"
| "joinSlash (x # y # ys) = x @ ''/'' @ joinSlash (y # ys)"

definition render :: "bool \<Rightarrow> string list \<Rightarrow> string" where
  "render r out = (let s = (if r then ''/'' else []) @ joinSlash out in if s = [] then ''.'' else s)"

definition Clean :: "string \<Rightarrow> string" where
  "Clean p = (if p = [] then ''.'' else render (IsAbs p) (foldl (cleanStep (IsAbs p)) [] (splitSlash p)))"

fun filepath_Join :: "string list \<Rightarrow> string" where
  "filepath_Join [] = []"
| "filepath_Join (e # es) = (if e = [] then filepath_Join es else Clean (joinSlash (e # es)))"

definition filepath_Dir :: "string \<Rightarrow> string" where
  "filepath_Dir p = Clean (rev (dropWhile (\<lambda>c. c \<noteq> CHR ''/'') (rev p)))"

section \<open>The walk callback of \<open>CreateTar\<close>\<close>

record wstate =
  seen :: "devino \<rightharpoonup> string"
  tw :: tarWriter

type_synonym patternMatcher = "string \<Rightarrow> error + bool"

text \<open>Lines 60--77: the test on the root of the walk. \<open>True\<close> in the second component
  means the callback goes on to the rest of its body.\<close>

definition rootCheck :: "string \<Rightarrow> string \<Rightarrow> node \<Rightarrow> error option \<times> bool" where
  "rootCheck source path dentry =
     (if source = path then
        (case dentry of
           Dir _ dopen rd1 _ children \<Rightarrow>
             (case dopen of
                Some e \<Rightarrow> (Some e, False)
              | None \<Rightarrow>
                  if children \<noteq> [] \<and> rd1 = None then (None, False)  \<comment> \<open>non empty root dir\<close>
                  else (None, True))
         | _ \<Rightarrow> (None, True))
      else (None, True))"

text \<open>Lines 101--141: a regular file.\<close>

definition addFile ::
  "(tarWriter \<Rightarrow> header \<Rightarrow> error option) \<Rightarrow> string \<Rightarrow> node \<Rightarrow> wstate \<Rightarrow> error option \<times> wstate" where
  "addFile wfail name dentry st =
     (case dentry of
        File _ fopen content fcopy \<Rightarrow>
          (case Info dentry of
             Inl e \<Rightarrow> (Some e, st)
           | Inr info \<Rightarrow>
               (case CheckHardLink info of
                  (di, isHardLink) \<Rightarrow>
                    (case FileInfoHeader info [] of
                       Inl e \<Rightarrow> (Some e, st)
                     | Inr hdr0 \<Rightarrow>
                         (let hdr = hdr0\<lparr>Uid := 0, Gid := 0\<rparr> in
                          case seen st di of
                            Some orig \<Rightarrow>
                              (case WriteHeader wfail (tw st)
                                      (hdr\<lparr>Typeflag := TypeLink, Linkname := orig, Size := 0, Name := name\<rparr>) of
                                 (err, w) \<Rightarrow> (err, st\<lparr>tw := w\<rparr>))
                          | None \<Rightarrow>
                              (case fopen of
                                 Some e \<Rightarrow> (Some e, st)
                               | None \<Rightarrow>
                                   (case WriteHeader wfail (tw st) (hdr\<lparr>Name := name\<rparr>) of
                                      (Some e, w) \<Rightarrow> (Some e, st\<lparr>tw := w\<rparr>)
                                    | (None, w) \<Rightarrow>
                                        (case io_Copy w content fcopy of
                                           (err, w') \<Rightarrow>
                                             (err, \<lparr>seen = (if err = None \<and> isHardLink
                                                             then (seen st)(di \<mapsto> name) else seen st),
                                                    tw = w'\<rparr>))))))))
      | _ \<Rightarrow> (None, st))"

text \<open>Lines 142--155: a directory.\<close>

definition addDir ::
  "(tarWriter \<Rightarrow> header \<Rightarrow> error option) \<Rightarrow> string \<Rightarrow> node \<Rightarrow> wstate \<Rightarrow> error option \<times> wstate" where
  "addDir wfail name dentry st =
     (case Info dentry of
        Inl e \<Rightarrow> (Some e, st)
      | Inr info \<Rightarrow>
          (case FileInfoHeader info name of
             Inl e \<Rightarrow> (Some e, st)
           | Inr hdr \<Rightarrow>
               (case WriteHeader wfail (tw st) (hdr\<lparr>Name := name, Uid := 0, Gid := 0\<rparr>) of
                  (err, w) \<Rightarrow> (err, st\<lparr>tw := w\<rparr>))))"

text \<open>Lines 156--173: a symlink.\<close>

definition addSymlink ::
  "(tarWriter \<Rightarrow> header \<Rightarrow> error option) \<Rightarrow> string \<Rightarrow> node \<Rightarrow> wstate \<Rightarrow> error option \<times> wstate" where
  "addSymlink wfail name dentry st =
     (case dentry of
        Symlink _ rl \<Rightarrow>
          (case rl of
             Inl e \<Rightarrow> (Some e, st)
           | Inr link \<Rightarrow>
               (case Info dentry of
                  Inl e \<Rightarrow> (Some e, st)
                | Inr info \<Rightarrow>
                    (case FileInfoHeader info link of
                       Inl e \<Rightarrow> (Some e, st)
                     | Inr hdr \<Rightarrow>
                         (case WriteHeader wfail (tw st) (hdr\<lparr>Name := name, Uid := 0, Gid := 0\<rparr>) of
                            (err, w) \<Rightarrow> (err, st\<lparr>tw := w\<rparr>)))))
      | _ \<Rightarrow> (None, st))"

text \<open>Lines 101--175: the \<open>switch\<close> on the entry's type.\<close>

definition addEntry ::
  "(tarWriter \<Rightarrow> header \<Rightarrow> error option) \<Rightarrow> string \<Rightarrow> node \<Rightarrow> wstate \<Rightarrow> error option \<times> wstate" where
  "addEntry wfail name dentry st =
     (case dentry of
        File _ _ _ _ \<Rightarrow> addFile wfail name dentry st
      | Dir _ _ _ _ _ \<Rightarrow> addDir wfail name dentry st
      | Symlink _ _ \<Rightarrow> addSymlink wfail name dentry st
      | Irregular \<Rightarrow> (None, st))"

text \<open>Lines 78--86: the name of the entry in the archive (\<open>filepath.ToSlash\<close> is the
  identity where the separator is \<open>/\<close>).\<close>

definition entryName :: "nat \<Rightarrow> string \<Rightarrow> string \<Rightarrow> string" where
  "entryName i source path =
     (if i = 0 then TrimPrefix path (source @ (if source = path then [] else ''/''))
      else path)"

text \<open>
  Lines 52--176: the function handed to \<open>filepath.WalkDir\<close>. \<open>dentry\<close> is \<open>None\<close> when
  \<open>WalkDir\<close> could not stat the root (then \<open>err\<close> is set).
\<close>

definition walkFn ::
  "(tarWriter \<Rightarrow> header \<Rightarrow> error option) \<Rightarrow> patternMatcher \<Rightarrow> nat \<Rightarrow> string \<Rightarrow>
   string \<Rightarrow> node option \<Rightarrow> error option \<Rightarrow> wstate \<Rightarrow> error option \<times> wstate" where
  "walkFn wfail pm i source path dentry err st =
     (case err of
        Some e \<Rightarrow> (Some e, st)
      | None \<Rightarrow>
          (case dentry of
             None \<Rightarrow> (None, st)
           | Some d \<Rightarrow>
               (case rootCheck source path d of
                  (Some e, _) \<Rightarrow> (Some e, st)
                | (None, False) \<Rightarrow> (None, st)
                | (None, True) \<Rightarrow>
                    if 0 < i \<and> \<not> IsRegular d then (Some (ErrNotRegular path), st)
                    else
                      (let name = entryName i source path in
                       if \<not> IsAbs name then
                         (case pm name of
                            Inl e \<Rightarrow> (Some (ErrCheckExcluded name e), st)
                          | Inr excluded \<Rightarrow>
                              if excluded then (None, st) else addEntry wfail name d st)
                       else addEntry wfail name d st))))"

section \<open>\<open>filepath.WalkDir\<close>\<close>

text \<open>
  The walk of the Go standard library: the callback is called on an entry, then, for a
  directory, on its children in the order \<open>os.ReadDir\<close> lists them; a failure of
  \<open>os.ReadDir\<close> is reported by a second call on the directory; the first error the
  callback returns ends the walk and is the walk's result. (The callback of \<open>CreateTar\<close>
  never returns \<open>filepath.SkipDir\<close> or \<open>filepath.SkipAll\<close>, which \<open>error\<close> does not have.)
\<close>

fun walkDir ::
  "(string \<Rightarrow> node option \<Rightarrow> error option \<Rightarrow> 's \<Rightarrow> error option \<times> 's) \<Rightarrow>
   string \<Rightarrow> node \<Rightarrow> 's \<Rightarrow> error option \<times> 's"
and walkChildren ::
  "(string \<Rightarrow> node option \<Rightarrow> error option \<Rightarrow> 's \<Rightarrow> error option \<times> 's) \<Rightarrow>
   string \<Rightarrow> (string \<times> node) list \<Rightarrow> 's \<Rightarrow> error option \<times> 's" where
  "walkDir fn path (Dir si dopen rd1 rd children) st =
     (case fn path (Some (Dir si dopen rd1 rd children)) None st of
        (Some e, st') \<Rightarrow> (Some e, st')
      | (None, st') \<Rightarrow>
          (case rd of
             Some e \<Rightarrow> fn path (Some (Dir si dopen rd1 rd children)) (Some e) st'
           | None \<Rightarrow> walkChildren fn path children st'))"
| "walkDir fn path (File si fopen content fcopy) st = fn path (Some (File si fopen content fcopy)) None st"
| "walkDir fn path (Symlink si rl) st = fn path (Some (Symlink si rl)) None st"
| "walkDir fn path Irregular st = fn path (Some Irregular) None st"
| "walkChildren fn path [] st = (None, st)"
| "walkChildren fn path (c # cs) st =
     (case walkDir fn (filepath_Join [path, fst c]) (snd c) st of
        (Some e, st') \<Rightarrow> (Some e, st')
      | (None, st') \<Rightarrow> walkChildren fn path cs st')"

definition WalkDir ::
  "(string \<Rightarrow> error + node) \<Rightarrow> string \<Rightarrow>
   (string \<Rightarrow> node option \<Rightarrow> error option \<Rightarrow> 's \<Rightarrow> error option \<times> 's) \<Rightarrow> 's \<Rightarrow> error option \<times> 's" where
  "WalkDir lstat root fn st =
     (case lstat root of
        Inl e \<Rightarrow> fn root None (Some e) st
      | Inr d \<Rightarrow> walkDir fn root d st)"

section \<open>\<open>CreateTar\<close>\<close>

text \<open>
  What \<open>CreateTar\<close> calls outside itself: the pattern matcher of
  \<open>containers/storage/pkg/fileutils\<close>, \<open>filepath.Abs\<close>, the file system under each root,
  and the failures of the tar writer.
\<close>

record env =
  NewPatternMatcher :: "string list \<Rightarrow> error + patternMatcher"
  filepath_Abs :: "string \<Rightarrow> error + string"
  os_Lstat :: "string \<Rightarrow> error + node"
  tw_fail :: "tarWriter \<Rightarrow> header \<Rightarrow> error option"

text \<open>
  \<open>multierror.Append(merr, err)\<close>: \<open>merr\<close> is a pointer, \<open>nil\<close> before the first call; a
  \<open>nil\<close> error adds nothing to the list.
\<close>

definition Append :: "error list option \<Rightarrow> error option \<Rightarrow> error list option" where
  "Append merr err =
     Some ((case merr of None \<Rightarrow> [] | Some es \<Rightarrow> es) @ (case err of None \<Rightarrow> [] | Some e \<Rightarrow> [e]))"

definition ErrorOrNil :: "error list \<Rightarrow> error option" where
  "ErrorOrNil es = (if es = [] then None else Some (MultiError es))"

text \<open>Lines 45--178: the loop of the worker over the sources, from index \<open>i\<close> on.\<close>

fun sourcesLoop ::
  "env \<Rightarrow> patternMatcher \<Rightarrow> nat \<Rightarrow> string list \<Rightarrow> wstate \<Rightarrow> error list option \<Rightarrow>
   wstate \<times> error list option" where
  "sourcesLoop E pm i [] st merr = (st, merr)"
| "sourcesLoop E pm i (src # srcs) st merr =
     (case filepath_Abs E src of
        Inl e \<Rightarrow> (st, Append merr (Some e))
      | Inr source \<Rightarrow>
          (case WalkDir (os_Lstat E) source (walkFn (tw_fail E) pm i source) st of
             (err, st') \<Rightarrow> sourcesLoop E pm (Suc i) srcs st' (Append merr err)))"

text \<open>
  The stream \<open>CreateTar\<close> returns, once the worker has run to its end and the reader has
  drained the pipe: the entries the reader receives, the error its reads end with
  (\<open>None\<close> is a clean end of file: the worker closes the pipe with \<open>pw.Close()\<close>), and the
  result of \<open>Close\<close>.
\<close>

record readCloser =
  rc_entries :: tarWriter
  rc_read_err :: "error option"
  rc_close :: "error option"

text \<open>Lines 180--186: the close function of the wrapper (\<open>pr.Close()\<close> returns \<open>nil\<close>).\<close>

definition closeFn :: "error list option \<Rightarrow> error option" where
  "closeFn merr =
     (case merr of
        Some es \<Rightarrow> (case Append (Some es) None of Some es' \<Rightarrow> ErrorOrNil es' | None \<Rightarrow> None)
      | None \<Rightarrow> None)"

definition CreateTar :: "env \<Rightarrow> string list \<Rightarrow> string list \<Rightarrow> error + readCloser" where
  "CreateTar E excludes sources =
     (case NewPatternMatcher E excludes of
        Inl e \<Rightarrow> Inl (ErrExcludes excludes e)
      | Inr pm \<Rightarrow>
          if sources = [] then Inl ErrNoSources
          else
            (case sourcesLoop E pm 0 sources \<lparr>seen = Map.empty, tw = []\<rparr> None of
               (st, merr) \<Rightarrow>
                 Inr \<lparr>rc_entries = tw st, rc_read_err = None, rc_close = closeFn merr\<rparr>))"

section \<open>The Content-Type test of the play-kube handler (\<open>KubePlay\<close>)\<close>

text \<open>
  Lines 46--66 of \<^verbatim>\<open>pkg/api/handlers/libpod/kube.go\<close>. The request is its header map and
  the answer of \<open>utils.IsLibpodRequest\<close>. \<open>Inl\<close> is the response the handler writes
  before it returns; \<open>Inr\<close> holds what it logged when it goes on to read the body.
\<close>

datatype response = BadRequest string string error

datatype logline = Infof string

definition KubePlay_contentType ::
  "(string \<rightharpoonup> string list) \<Rightarrow> bool \<Rightarrow> response + logline list" where
  "KubePlay_contentType header isLibpodRequest =
     (case header ''Content-Type'' of
        None \<Rightarrow> Inr []
      | Some hdr \<Rightarrow>
         (case hdr of
            [] \<Rightarrow> Inr []
          | contentType # _ \<Rightarrow>
              if contentType = ''application/json'' then Inr []
              else if contentType = ''application/tar'' then Inr [Infof contentType]
              else if contentType = ''application/x-tar'' then Inr []
              else if isLibpodRequest
                then Inl (BadRequest ''Content-Type'' contentType (ErrContentType contentType))
                else Inr [Infof contentType]))"

section \<open>Context selection (\<open>getTarKubePlayContext\<close>)\<close>

text \<open>
  What \<open>getTarKubePlayContext\<close> calls outside its file: the YAML helpers of
  \<open>pkg/util\<close> (\<open>UnmarshalPod\<close> is \<open>yaml.Unmarshal\<close> into a pod, followed by the images of
  \<open>podYAML.Spec.Containers\<close>), the directory listing, the temporary directory, and the
  archiver's environment.
\<close>

record kenv =
  SplitMultiDocYAML :: "string \<Rightarrow> error + string list"
  GetKubeKind :: "string \<Rightarrow> error + string"
  UnmarshalPod :: "string \<Rightarrow> error + string list"
  GetBuildFile :: "string \<Rightarrow> string \<Rightarrow> error + string"
  os_Open :: "string \<Rightarrow> error option"
  f_Readdir :: "string \<Rightarrow> error + string list"
  os_MkdirTemp :: "error + string"
  os_WriteFile :: "string \<Rightarrow> string \<Rightarrow> error option"
  tarEnv :: env

text \<open>Lines 114--130.\<close>

definition OSReadDir :: "kenv \<Rightarrow> string \<Rightarrow> error + string list" where
  "OSReadDir K root =
     (case os_Open K root of
        Some e \<Rightarrow> Inl e
      | None \<Rightarrow>
         (case f_Readdir K root of
            Inl e \<Rightarrow> Inl e
          | Inr names \<Rightarrow> Inr (map (\<lambda>name. filepath_Join [root, name]) names)))"

text \<open>Lines 169--180: the containers of one pod. \<open>retained\<close> is the slice \<open>seen\<close> of the source.\<close>

fun containersLoop :: "kenv \<Rightarrow> string \<Rightarrow> string list \<Rightarrow> string list \<Rightarrow> error + string list" where
  "containersLoop K contextDir [] retained = Inr retained"
| "containersLoop K contextDir (img # rest) retained =
     (case GetBuildFile K img contextDir of
        Inl e \<Rightarrow> Inl e
      | Inr buildFile \<Rightarrow>
          if length buildFile = 0 then containersLoop K contextDir rest retained
          else containersLoop K contextDir rest (retained @ [filepath_Dir buildFile]))"

text \<open>Lines 153--181: the documents of the manifest.\<close>

fun documentsLoop :: "kenv \<Rightarrow> string \<Rightarrow> string list \<Rightarrow> string list \<Rightarrow> error + string list" where
  "documentsLoop K contextDir [] retained = Inr retained"
| "documentsLoop K contextDir (document # rest) retained =
     (case GetKubeKind K document of
        Inl e \<Rightarrow> Inl (ErrKubeYAML e)
      | Inr kind \<Rightarrow>
          if kind \<noteq> ''Pod'' then documentsLoop K contextDir rest retained
          else
            (case UnmarshalPod K document of
               Inl e \<Rightarrow> Inl (ErrKubePod e)
             | Inr containers \<Rightarrow>
                 (case containersLoop K contextDir containers retained of
                    Inl e \<Rightarrow> Inl e
                  | Inr retained' \<Rightarrow> documentsLoop K contextDir rest retained')))"

text \<open>Lines 139--188: the retained paths and the exclusion list.\<close>

definition selectContext :: "kenv \<Rightarrow> string \<Rightarrow> string \<Rightarrow> error + string list \<times> string list" where
  "selectContext K yamlBytes contextDir =
     (case SplitMultiDocYAML K yamlBytes of
        Inl e \<Rightarrow> Inl e
      | Inr documentList \<Rightarrow>
         (case OSReadDir K contextDir of
            Inl e \<Rightarrow> Inl e
          | Inr files \<Rightarrow>
             (case documentsLoop K contextDir documentList [''play.yaml''] of
                Inl e \<Rightarrow> Inl e
              | Inr retained \<Rightarrow> Inr (retained, filter (\<lambda>file. file \<notin> set retained) files))))"

text \<open>Lines 132--208. The reader is the result of \<open>io.ReadAll\<close> on it.\<close>

definition getTarKubePlayContext :: "kenv \<Rightarrow> error + string \<Rightarrow> string \<Rightarrow> error + readCloser" where
  "getTarKubePlayContext K reader contextDir =
     (case reader of
        Inl e \<Rightarrow> Inl e
      | Inr yamlBytes \<Rightarrow>
         (case selectContext K yamlBytes contextDir of
            Inl e \<Rightarrow> Inl e
          | Inr (retained, excluded) \<Rightarrow>
             (case os_MkdirTemp K of
                Inl e \<Rightarrow> Inl e
              | Inr tmp \<Rightarrow>
                 (case os_WriteFile K (filepath_Join [tmp, ''play.yaml'']) yamlBytes of
                    Some e \<Rightarrow> Inl e
                  | None \<Rightarrow> CreateTar (tarEnv K) excluded [contextDir, tmp]))))"

section \<open>Notions used to state the properties\<close>

text \<open>
  Paths as lists of elements: an element without separator, a name (neither empty nor
  \<open>.\<close> nor \<open>..\<close>), the elements \<open>Clean\<close> keeps of a path, and the lists it leaves as they
  are (some \<open>..\<close>, none in a rooted path, then names).
\<close>

definition slashFree :: "string \<Rightarrow> bool" where
  "slashFree x = (CHR ''/'' \<notin> set x)"

definition plain :: "string \<Rightarrow> bool" where
  "plain x = (x \<noteq> [] \<and> slashFree x \<and> x \<noteq> ''.'' \<and> x \<noteq> ''..'')"

definition dot :: string where "dot = ''.''"
definition dotdot :: string where "dotdot = ''..''"

definition stack :: "string \<Rightarrow> string list" where
  "stack p = foldl (cleanStep (IsAbs p)) [] (splitSlash p)"

definition stable :: "bool \<Rightarrow> string list \<Rightarrow> bool" where
  "stable r S = (\<exists>k P. S = replicate k dotdot @ P \<and> (r \<longrightarrow> k = 0) \<and> (\<forall>x \<in> set P. plain x))"

text \<open>The errors collected in \<open>merr\<close>.\<close>

definition errs :: "error list option \<Rightarrow> error list" where
  "errs merr = (case merr of None \<Rightarrow> [] | Some es \<Rightarrow> es)"

text \<open>
  What \<open>os.Lstat\<close> gives for a root that the callback rejects at an index above 0:
  nothing, a symlink, an irregular file, or a directory that is empty or cannot be opened
  or listed.
\<close>

definition rejectedExtraRoot :: "error + node \<Rightarrow> bool" where
  "rejectedExtraRoot r =
     (case r of
        Inl e \<Rightarrow> True
      | Inr d \<Rightarrow>
         (case d of
            File _ _ _ _ \<Rightarrow> False
          | Dir _ dopen rd1 _ children \<Rightarrow> dopen \<noteq> None \<or> children = [] \<or> rd1 \<noteq> None
          | Symlink _ _ \<Rightarrow> True
          | Irregular \<Rightarrow> True))"

text \<open>An entry of a regular file whose bytes were all written.\<close>

definition fullEntry :: "header \<times> string \<Rightarrow> bool" where
  "fullEntry e = (Typeflag (fst e) = TypeReg \<and> Size (fst e) = int (length (snd e)))"

text \<open>Every hard-link entry names an earlier entry that is a regular file written in full.\<close>

definition linksResolved :: "tarWriter \<Rightarrow> bool" where
  "linksResolved w =
     (\<forall>j < length w. Typeflag (fst (w ! j)) = TypeLink \<longrightarrow>
        (\<exists>k < j. Name (fst (w ! k)) = Linkname (fst (w ! j)) \<and> fullEntry (w ! k)))"

definition seenWritten :: "wstate \<Rightarrow> bool" where
  "seenWritten st =
     (\<forall>di name. seen st di = Some name \<longrightarrow> (\<exists>e \<in> set (tw st). Name (fst e) = name \<and> fullEntry e))"

definition zeroOwner :: "tarWriter \<Rightarrow> bool" where
  "zeroOwner w = (\<forall>e \<in> set w. Uid (fst e) = 0 \<and> Gid (fst e) = 0)"

text \<open>
  One invocation of the callback by \<open>filepath.WalkDir\<close> with an entry and no error,
  and the state after a sequence of them, whatever each returned.
\<close>

record call =
  c_index :: nat
  c_source :: string
  c_path :: string
  c_entry :: node

definition callFn ::
  "(tarWriter \<Rightarrow> header \<Rightarrow> error option) \<Rightarrow> patternMatcher \<Rightarrow> call \<Rightarrow> wstate \<Rightarrow> error option \<times> wstate" where
  "callFn wfail pm c st = walkFn wfail pm (c_index c) (c_source c) (c_path c) (Some (c_entry c)) None st"




section \<open>A concrete file system for the examples\<close>

text \<open>
  The pattern matcher is a library outside this package; the theorems below hold for
  every matcher. The concrete runs use this small one: a rule matches a path equal to
  it or below it, a rule that starts with \<open>!\<close> re-includes what it matches, the last
  matching rule wins, and the pattern \<open>!\<close> alone is malformed.
\<close>

definition ruleMatches :: "string \<Rightarrow> string \<Rightarrow> bool" where
  "ruleMatches pat file = (file = pat \<or> HasPrefix file (pat @ ''/''))"

fun applyRules :: "string list \<Rightarrow> string \<Rightarrow> bool \<Rightarrow> bool" where
  "applyRules [] file matched = matched"
| "applyRules (p # ps) file matched =
     (if HasPrefix p ''!''
      then applyRules ps file (if ruleMatches (drop 1 p) file then False else matched)
      else applyRules ps file (if ruleMatches p file then True else matched))"

definition examplePM :: "string list \<Rightarrow> patternMatcher" where
  "examplePM ps = (\<lambda>file. Inr (applyRules ps file False))"

definition exampleNewPatternMatcher :: "string list \<Rightarrow> error + patternMatcher" where
  "exampleNewPatternMatcher ps =
     (if ''!'' \<in> set ps then Inl (ErrSys ''illegal exclusion pattern'') else Inr (examplePM ps))"

definition noFail :: "tarWriter \<Rightarrow> header \<Rightarrow> error option" where
  "noFail w hdr = None"

definition initState :: wstate where
  "initState = \<lparr>seen = Map.empty, tw = []\<rparr>"

definition exampleStat :: "64 word \<Rightarrow> 64 word \<Rightarrow> stat_t" where
  "exampleStat ino nlink =
     \<lparr>st_Dev = 1, st_Ino = ino, st_Nlink = nlink, st_Uid = 1000, st_Gid = 1000\<rparr>"

definition exampleDenied :: "string \<times> node" where
  "exampleDenied = (''x'', File (Inr (exampleStat 30 1)) (Some (ErrSys ''permission denied'')) ''x'' None)"

definition exampleSibling :: "string \<times> node" where
  "exampleSibling = (''y'', File (Inr (exampleStat 31 1)) None ''y'' None)"

definition exampleManifest :: "string \<times> node" where
  "exampleManifest = (''play.yaml'', File (Inr (exampleStat 20 1)) None ''kind: Pod'' None)"

definition exampleSubdir :: node where
  "exampleSubdir = Dir (Inr (exampleStat 3 2)) None None None
     [(''keep'', File (Inr (exampleStat 11 1)) None ''k'' None),
      (''skip'', File (Inr (exampleStat 12 1)) None ''s'' None)]"

definition exampleFS :: "string \<Rightarrow> error + node" where
  "exampleFS p =
     (if p = ''/ctx'' then
        Inr (Dir (Inr (exampleStat 2 3)) None None None
          [(''a.txt'', File (Inr (exampleStat 10 2)) None ''hello'' None),
           (''b.txt'', File (Inr (exampleStat 10 2)) None ''hello'' None),
           (''d'', exampleSubdir),
           (''l'', Symlink (Inr (exampleStat 13 1)) (Inr ''a.txt''))])
      else if p = ''/empty'' then Inr (Dir (Inr (exampleStat 4 2)) None None None [])
      else if p = ''/tmp/kube'' then
        Inr (Dir (Inr (exampleStat 5 2)) None None None [exampleManifest])
      else if p = ''/bad'' then
        Inr (Dir (Inr (exampleStat 6 2)) None None None [exampleDenied, exampleSibling])
      else if p = ''/link'' then Inr (Symlink (Inr (exampleStat 7 1)) (Inr ''/ctx''))
      else Inl (ErrSys ''no such file or directory''))"

definition exampleEnv :: env where
  "exampleEnv =
     \<lparr>NewPatternMatcher = exampleNewPatternMatcher, filepath_Abs = Inr,
      os_Lstat = exampleFS, tw_fail = noFail\<rparr>"

definition rcCtx :: readCloser where
  "rcCtx = \<lparr>rc_entries =
        [(\<lparr>Typeflag = TypeReg, Name = ''a.txt'', Linkname = [], Size = 5, Uid = 0, Gid = 0\<rparr>, ''hello''),
         (\<lparr>Typeflag = TypeLink, Name = ''b.txt'', Linkname = ''a.txt'', Size = 0, Uid = 0, Gid = 0\<rparr>, []),
         (\<lparr>Typeflag = TypeDir, Name = ''d'', Linkname = [], Size = 0, Uid = 0, Gid = 0\<rparr>, []),
         (\<lparr>Typeflag = TypeReg, Name = ''d/keep'', Linkname = [], Size = 1, Uid = 0, Gid = 0\<rparr>, ''k''),
         (\<lparr>Typeflag = TypeReg, Name = ''d/skip'', Linkname = [], Size = 1, Uid = 0, Gid = 0\<rparr>, ''s''),
         (\<lparr>Typeflag = TypeSymlink, Name = ''l'', Linkname = ''a.txt'', Size = 0, Uid = 0, Gid = 0\<rparr>, [])],
      rc_read_err = None, rc_close = None\<rparr>"

definition exampleCall :: "string \<Rightarrow> node \<Rightarrow> call" where
  "exampleCall path d = \<lparr>c_index = 0, c_source = ''/ctx'', c_path = path, c_entry = d\<rparr>"

definition exampleLinked :: node where
  "exampleLinked = File (Inr (exampleStat 10 2)) None ''hello'' None"

definition afterA :: wstate where
  "afterA = \<lparr>seen = [Devino 1 10 \<mapsto> ''a.txt''],
             tw = [(\<lparr>Typeflag = TypeReg, Name = ''a.txt'', Linkname = [], Size = 5, Uid = 0, Gid = 0\<rparr>,
                    ''hello'')]\<rparr>"

definition exampleHeader :: "string \<Rightarrow> string \<rightharpoonup> string list" where
  "exampleHeader ct = [''Content-Type'' \<mapsto> [ct]]"

definition manifestEntry :: "header \<times> string" where
  "manifestEntry =
     (\<lparr>Typeflag = TypeReg, Name = ''/tmp/kube/play.yaml'', Linkname = [], Size = 9, Uid = 0, Gid = 0\<rparr>,
      ''kind: Pod'')"

definition rcBad :: readCloser where
  "rcBad = \<lparr>rc_entries = [manifestEntry], rc_read_err = None,
            rc_close = Some (MultiError [ErrSys ''permission denied''])\<rparr>"

definition rcLink :: readCloser where
  "rcLink = \<lparr>rc_entries = rc_entries rcCtx, rc_read_err = None,
             rc_close = Some (MultiError [ErrNotRegular ''/link''])\<rparr>"

definition rcExcluded :: readCloser where
  "rcExcluded = \<lparr>rc_entries =
        [(\<lparr>Typeflag = TypeReg, Name = ''a.txt'', Linkname = [], Size = 5, Uid = 0, Gid = 0\<rparr>, ''hello''),
         (\<lparr>Typeflag = TypeLink, Name = ''b.txt'', Linkname = ''a.txt'', Size = 0, Uid = 0, Gid = 0\<rparr>, []),
         (\<lparr>Typeflag = TypeReg, Name = ''d/keep'', Linkname = [], Size = 1, Uid = 0, Gid = 0\<rparr>, ''k''),
         (\<lparr>Typeflag = TypeSymlink, Name = ''l'', Linkname = ''a.txt'', Size = 0, Uid = 0, Gid = 0\<rparr>, [])],
      rc_read_err = None, rc_close = None\<rparr>"

definition emptyDirHeader :: header where
  "emptyDirHeader = \<lparr>Typeflag = TypeDir, Name = [], Linkname = [], Size = 0, Uid = 0, Gid = 0\<rparr>"

text \<open>
  An environment for context selection: one document of kind Pod with one container whose
  image \<open>source2\<close> has its build file at \<open>source2/Containerfile\<close> under the context
  directory, which lists \<open>source1\<close> and \<open>source2\<close>.
\<close>

definition exampleKube :: kenv where
  "exampleKube =
     \<lparr>SplitMultiDocYAML = (\<lambda>y. Inr [y]), GetKubeKind = (\<lambda>d. Inr ''Pod''),
      UnmarshalPod = (\<lambda>d. Inr [''source2'']),
      GetBuildFile = (\<lambda>img dir. Inr (filepath_Join [dir, img, ''Containerfile''])),
      os_Open = (\<lambda>p. None), f_Readdir = (\<lambda>p. Inr [''source1'', ''source2'']),
      os_MkdirTemp = Inr ''/tmp/kube'', os_WriteFile = (\<lambda>p b. None), tarEnv = exampleEnv\<rparr>"

section \<open>Cleaned paths\<close>

lemma splitSlash_nonempty: "splitSlash p \<noteq> []"
  by (induction p) (auto split: list.splits)

lemma splitSlash_slash: "splitSlash (p @ CHR ''/'' # q) = splitSlash p @ splitSlash q"
proof (induction p)
  case Nil
  then show ?case by simp
next
  case (Cons c p)
  then show ?case using splitSlash_nonempty[of p]
    by (cases "splitSlash p") (auto split: list.splits)
qed

lemma splitSlash_slashFree: "slashFree x \<Longrightarrow> splitSlash x = [x]"
  by (induction x) (auto simp: slashFree_def)

lemma splitSlash_parts: "x \<in> set (splitSlash p) \<Longrightarrow> slashFree x"
proof (induction p arbitrary: x)
  case Nil
  then show ?case by (simp add: slashFree_def)
next
  case (Cons c p)
  then show ?case using splitSlash_nonempty[of p]
    by (cases "splitSlash p") (auto simp: slashFree_def split: if_splits)
qed

lemma joinSlash_snoc: "T \<noteq> [] \<Longrightarrow> joinSlash (T @ [n]) = joinSlash T @ CHR ''/'' # n"
  by (induction T rule: joinSlash.induct) auto

lemma splitSlash_joinSlash:
  "T \<noteq> [] \<Longrightarrow> \<forall>x \<in> set T. slashFree x \<Longrightarrow> splitSlash (joinSlash T) = T"
proof (induction T rule: joinSlash.induct)
  case 1
  then show ?case by simp
next
  case (2 x)
  then show ?case by (simp add: splitSlash_slashFree)
next
  case (3 x y ys)
  then show ?case by (simp add: splitSlash_slash splitSlash_slashFree)
qed

lemma dots_facts: "dot \<noteq> []" "dotdot \<noteq> []" "dot \<noteq> dotdot" "slashFree dot" "slashFree dotdot"
  by (simp_all add: dot_def dotdot_def slashFree_def)

lemma cleanStep_alt:
  "cleanStep r out x =
     (if x = [] \<or> x = dot then out
      else if x = dotdot then
        (if out \<noteq> [] \<and> last out \<noteq> dotdot then butlast out
         else if r then out else out @ [dotdot])
      else out @ [x])"
  by (simp add: cleanStep_def dot_def dotdot_def)

lemma plain_alt: "plain x = (x \<noteq> [] \<and> slashFree x \<and> x \<noteq> dot \<and> x \<noteq> dotdot)"
  by (simp add: plain_def dot_def dotdot_def)

lemma cleanStep_plain: "plain x \<Longrightarrow> cleanStep r out x = out @ [x]"
  by (simp add: cleanStep_alt plain_alt)

lemma cleanStep_stable:
  assumes "stable r S" and "slashFree x"
  shows "stable r (cleanStep r S x)"
proof -
  obtain k P where S: "S = replicate k dotdot @ P" and r: "r \<longrightarrow> k = 0" and P: "\<forall>x \<in> set P. plain x"
    using assms(1) unfolding stable_def by blast
  consider (skip) "x = [] \<or> x = dot" | (up) "x = dotdot" | (name) "plain x"
    using assms(2) unfolding plain_alt by blast
  then show ?thesis
  proof cases
    case skip
    then show ?thesis using assms(1) by (auto simp: cleanStep_alt)
  next
    case up
    show ?thesis
    proof (cases "P = []")
      case True
      then have "cleanStep r S x = (if r then S else replicate (Suc k) dotdot)"
        using up S dots_facts by (cases k) (auto simp: cleanStep_alt replicate_append_same)
      then show ?thesis using S True r
        by (auto simp: stable_def intro!: exI[of _ "Suc k"] exI[of _ "[]"])
    next
      case False
      then have "last S = last P" "plain (last P)" using S P by auto
      then have "cleanStep r S x = replicate k dotdot @ butlast P"
        using up S False dots_facts by (auto simp: cleanStep_alt plain_alt butlast_append)
      moreover have "\<forall>x \<in> set (butlast P). plain x" using P by (auto dest: in_set_butlastD)
      ultimately show ?thesis using r unfolding stable_def by blast
    qed
  next
    case name
    then have "cleanStep r S x = replicate k dotdot @ (P @ [x])" using S by (simp add: cleanStep_plain)
    then show ?thesis using r P name unfolding stable_def
      by (intro exI[of _ k] exI[of _ "P @ [x]"]) auto
  qed
qed

lemma foldl_cleanStep_stable:
  "stable r A \<Longrightarrow> \<forall>x \<in> set xs. slashFree x \<Longrightarrow> stable r (foldl (cleanStep r) A xs)"
  by (induction xs arbitrary: A) (auto intro: cleanStep_stable)

lemma stack_stable: "stable (IsAbs p) (stack p)"
  unfolding stack_def
  by (rule foldl_cleanStep_stable) (auto simp: stable_def splitSlash_parts)

lemma foldl_dots: "\<not> r \<Longrightarrow> foldl (cleanStep r) (replicate m dotdot) (replicate k dotdot) = replicate (m + k) dotdot"
proof (induction k arbitrary: m)
  case 0
  then show ?case by simp
next
  case (Suc k)
  have "cleanStep r (replicate m dotdot) dotdot = replicate (Suc m) dotdot"
    using Suc.prems dots_facts by (cases m) (auto simp: cleanStep_alt replicate_append_same)
  then show ?case using Suc.IH[OF Suc.prems, of "Suc m"] by simp
qed

lemma foldl_plains: "\<forall>x \<in> set P. plain x \<Longrightarrow> foldl (cleanStep r) A P = A @ P"
  by (induction P arbitrary: A) (auto simp: cleanStep_plain)

lemma stable_fixed: "stable r S \<Longrightarrow> foldl (cleanStep r) [] S = S"
proof -
  assume "stable r S"
  then obtain k P where S: "S = replicate k dotdot @ P" and r: "r \<longrightarrow> k = 0" and P: "\<forall>x \<in> set P. plain x"
    unfolding stable_def by blast
  have "foldl (cleanStep r) [] (replicate k dotdot) = replicate k dotdot"
    using foldl_dots[of r 0 k] r by (cases r) auto
  then show ?thesis using S P by (simp add: foldl_plains)
qed

lemma stable_snoc: "stable r S \<Longrightarrow> plain n \<Longrightarrow> stable r (S @ [n])"
  using cleanStep_stable[of r S n] by (simp add: cleanStep_plain plain_alt)

lemma stable_parts:
  assumes "stable r S" and "x \<in> set S"
  shows "x \<noteq> [] \<and> slashFree x"
proof -
  obtain k P where S: "S = replicate k dotdot @ P" and P: "\<forall>x \<in> set P. plain x"
    using assms(1) unfolding stable_def by blast
  then have "x = dotdot \<or> plain x" using assms(2) by (auto split: if_splits)
  then show ?thesis using dots_facts(2,5) by (auto simp: plain_alt)
qed

lemma rooted_append: "p \<noteq> [] \<Longrightarrow> IsAbs (p @ q) = IsAbs p"
  by (cases p) (auto simp: IsAbs_def)

lemma joinSlash_nonempty: "T \<noteq> [] \<Longrightarrow> \<forall>x \<in> set T. x \<noteq> [] \<Longrightarrow> joinSlash T \<noteq> []"
  by (induction T rule: joinSlash.induct) auto

lemma joinSlash_hd: "T \<noteq> [] \<Longrightarrow> \<forall>x \<in> set T. x \<noteq> [] \<Longrightarrow> hd (joinSlash T) = hd (hd T)"
  by (induction T rule: joinSlash.induct) auto

text \<open>The rendered path of a non-empty stable stack: the root mark, then the joined components.\<close>

lemma render_nonempty:
  assumes "T \<noteq> []" and "\<forall>x \<in> set T. x \<noteq> []"
  shows "render r T = (if r then ''/'' else []) @ joinSlash T"
  using joinSlash_nonempty[OF assms] by (simp add: render_def Let_def)

lemma Clean_render:
  assumes st: "stable r T" and ne: "T \<noteq> []"
  shows "Clean (render r T @ ''/'') = render r T"
proof -
  have parts: "\<forall>x \<in> set T. x \<noteq> [] \<and> slashFree x" using stable_parts[OF st] by blast
  then have nonempty: "\<forall>x \<in> set T. x \<noteq> []" and sf: "\<forall>x \<in> set T. slashFree x" by auto
  let ?X = "(if r then ''/'' else []) @ joinSlash T"
  have X: "render r T = ?X" using render_nonempty[OF ne nonempty] .
  have Xne: "?X \<noteq> []" using joinSlash_nonempty[OF ne nonempty] by simp
  have "hd T \<in> set T" using ne by simp
  then have "hd T \<noteq> []" "slashFree (hd T)" using parts by auto
  then have "hd (hd T) \<noteq> CHR ''/''" by (cases "hd T") (auto simp: slashFree_def)
  then have "hd (joinSlash T) \<noteq> CHR ''/''" using joinSlash_hd[OF ne nonempty] by simp
  then have rj: "\<not> IsAbs (joinSlash T)"
    using joinSlash_nonempty[OF ne nonempty] by (cases "joinSlash T") (auto simp: IsAbs_def)
  have "IsAbs ?X = r"
  proof (cases r)
    case True
    then show ?thesis by (simp add: IsAbs_def)
  next
    case False
    then show ?thesis using rj by simp
  qed
  then have rX: "IsAbs (?X @ ''/'') = r"
    using rooted_append[OF Xne] by simp
  have sp: "splitSlash (?X @ ''/'') = (if r then [[]] else []) @ T @ [[]]"
    using splitSlash_slash[of ?X "[]"] splitSlash_joinSlash[OF ne sf] by (cases r) auto
  have skip: "cleanStep b A [] = A" for b A by (simp add: cleanStep_def)
  have "foldl (cleanStep r) [] (splitSlash (?X @ ''/'')) = T"
    using sp stable_fixed[OF st] by (cases r) (auto simp: skip)
  then have "Clean (?X @ ''/'') = render r T"
    using rX Xne by (simp add: Clean_def)
  then show ?thesis using X by simp
qed

lemma stack_snoc:
  assumes "d \<noteq> []" and "plain n"
  shows "IsAbs (d @ CHR ''/'' # n) = IsAbs d"
    and "foldl (cleanStep r) [] (splitSlash (d @ CHR ''/'' # n)) = foldl (cleanStep r) [] (splitSlash d) @ [n]"
proof -
  show "IsAbs (d @ CHR ''/'' # n) = IsAbs d" using rooted_append[OF assms(1)] by simp
  have "splitSlash (d @ CHR ''/'' # n) = splitSlash d @ [n]"
    using assms(2) by (simp add: splitSlash_slash splitSlash_slashFree plain_def)
  then show "foldl (cleanStep r) [] (splitSlash (d @ CHR ''/'' # n)) = foldl (cleanStep r) [] (splitSlash d) @ [n]"
    using assms(2) by (simp add: cleanStep_plain)
qed

lemma stack_empty: "stack [] = []" "IsAbs [] = False"
  by (simp_all add: stack_def IsAbs_def cleanStep_def)

lemma Join2:
  assumes "plain n"
  shows "filepath_Join [d, n] = render (IsAbs d) (stack d @ [n])"
proof (cases "d = []")
  case True
  have n: "n \<noteq> []" "slashFree n" using assms by (auto simp: plain_def)
  then have "\<not> IsAbs n" by (cases n) (auto simp: IsAbs_def slashFree_def)
  then have "Clean n = render False [n]"
    using n assms by (simp add: Clean_def splitSlash_slashFree cleanStep_plain)
  then show ?thesis using True n by (simp add: stack_empty)
next
  case False
  then show ?thesis using stack_snoc[OF False assms]
    by (simp add: Clean_def stack_def)
qed

lemma Join3:
  assumes "plain n" and "plain c"
  shows "filepath_Join [d, n, c] = render (IsAbs d) (stack d @ [n, c])"
proof (cases "d = []")
  case True
  have n: "n \<noteq> []" "slashFree n" using assms by (auto simp: plain_def)
  then have r: "\<not> IsAbs n" by (cases n) (auto simp: IsAbs_def slashFree_def)
  have "IsAbs (n @ CHR ''/'' # c) = IsAbs n"
    and "foldl (cleanStep (IsAbs n)) [] (splitSlash (n @ CHR ''/'' # c)) =
         foldl (cleanStep (IsAbs n)) [] (splitSlash n) @ [c]"
    using stack_snoc[OF n(1) assms(2)] by auto
  then have "Clean (n @ CHR ''/'' # c) = render False [n, c]"
    using n r assms by (simp add: Clean_def splitSlash_slashFree cleanStep_plain)
  then show ?thesis using True n by (simp add: stack_empty)
next
  case False
  have dn: "d @ CHR ''/'' # n \<noteq> []" by simp
  have "IsAbs ((d @ CHR ''/'' # n) @ CHR ''/'' # c) = IsAbs d"
    using stack_snoc(1)[OF dn assms(2)] stack_snoc(1)[OF False assms(1)] by simp
  moreover have "foldl (cleanStep (IsAbs d)) [] (splitSlash ((d @ CHR ''/'' # n) @ CHR ''/'' # c)) =
      stack d @ [n, c]"
    using stack_snoc(2)[OF dn assms(2)] stack_snoc(2)[OF False assms(1)] by (simp add: stack_def)
  ultimately show ?thesis using False by (simp add: Clean_def)
qed

lemma Dir_render:
  assumes st: "stable r T" and ne: "T \<noteq> []" and c: "plain c"
  shows "filepath_Dir (render r (T @ [c])) = render r T"
proof -
  have parts: "\<forall>x \<in> set T. x \<noteq> []" using stable_parts[OF st] by blast
  have c': "c \<noteq> []" "slashFree c" using c by (auto simp: plain_def)
  have "render r (T @ [c]) = (if r then ''/'' else []) @ joinSlash (T @ [c])"
    using render_nonempty[of "T @ [c]" r] parts c' by auto
  also have "\<dots> = render r T @ CHR ''/'' # c"
    using render_nonempty[OF ne parts, of r] joinSlash_snoc[OF ne, of c] by simp
  finally have eq: "render r (T @ [c]) = render r T @ CHR ''/'' # c" .
  have "dropWhile (\<lambda>x. x \<noteq> CHR ''/'') (rev c @ CHR ''/'' # rev (render r T)) = CHR ''/'' # rev (render r T)"
    using c' by (subst dropWhile_append2) (auto simp: slashFree_def)
  then have "filepath_Dir (render r (T @ [c])) = Clean (render r T @ ''/'')"
    by (simp add: filepath_Dir_def eq)
  then show ?thesis using Clean_render[OF st ne] by simp
qed

lemma Join2_suffix:
  assumes "plain n"
  shows "\<exists>pre. filepath_Join [d, n] = pre @ n \<and> (\<forall>m. plain m \<longrightarrow> filepath_Join [d, m] = pre @ m)"
proof -
  let ?S = "stack d" and ?r = "IsAbs d"
  have parts: "\<forall>x \<in> set ?S. x \<noteq> []" using stable_parts[OF stack_stable] by blast
  let ?pre = "(if ?r then ''/'' else []) @ (if ?S = [] then [] else joinSlash ?S @ ''/'')"
  have "filepath_Join [d, m] = ?pre @ m" if "plain m" for m
  proof -
    have m: "m \<noteq> []" using that by (simp add: plain_def)
    have "render ?r (?S @ [m]) = (if ?r then ''/'' else []) @ joinSlash (?S @ [m])"
      using render_nonempty[of "?S @ [m]" ?r] parts m by auto
    moreover have "joinSlash (?S @ [m]) = (if ?S = [] then [] else joinSlash ?S @ ''/'') @ m"
      using joinSlash_snoc[of ?S m] by (cases "?S = []") auto
    ultimately show ?thesis using Join2[OF that, of d] by simp
  qed
  then show ?thesis using assms by blast
qed

lemma render_not_empty: "render r T \<noteq> []"
  by (simp add: render_def Let_def)

lemma kube_paths:
  "filepath_Dir (filepath_Join [d, ''source2'', ''Containerfile'']) = filepath_Join [d, ''source2'']"
  "filepath_Join [d, ''source1''] \<noteq> filepath_Join [d, ''source2'']"
  "filepath_Join [d, ''source1''] \<noteq> ''play.yaml''"
  "filepath_Join [d, ''source2'', ''Containerfile''] \<noteq> []"
proof -
  have p: "plain ''source1''" "plain ''source2''" "plain ''Containerfile''"
    by (simp_all add: plain_def slashFree_def)
  have st: "stable (IsAbs d) (stack d @ [''source2''])"
    using stable_snoc[OF stack_stable p(2)] .
  have j3: "filepath_Join [d, ''source2'', ''Containerfile''] =
      render (IsAbs d) ((stack d @ [''source2'']) @ [''Containerfile''])"
    using Join3[OF p(2) p(3), of d] by simp
  have j2: "filepath_Join [d, ''source2''] = render (IsAbs d) (stack d @ [''source2''])"
    using Join2[OF p(2), of d] .
  show "filepath_Dir (filepath_Join [d, ''source2'', ''Containerfile'']) = filepath_Join [d, ''source2'']"
    unfolding j3 j2 by (rule Dir_render[OF st _ p(3)]) simp
  obtain pre where pre: "\<forall>m. plain m \<longrightarrow> filepath_Join [d, m] = pre @ m"
    using Join2_suffix[OF p(1)] by blast
  have s1: "filepath_Join [d, ''source1''] = pre @ ''source1''"
    and s2: "filepath_Join [d, ''source2''] = pre @ ''source2''"
    using pre p by blast+
  show "filepath_Join [d, ''source1''] \<noteq> filepath_Join [d, ''source2'']"
    unfolding s1 s2 by simp
  have "last (pre @ ''source1'') = CHR ''1''" by simp
  then show "filepath_Join [d, ''source1''] \<noteq> ''play.yaml''"
    unfolding s1 by auto
  show "filepath_Join [d, ''source2'', ''Containerfile''] \<noteq> []"
    unfolding j3 by (rule render_not_empty)
qed

section \<open>The walk preserves invariants of the callback\<close>

lemma walk_invariant:
  fixes fn :: "string \<Rightarrow> node option \<Rightarrow> error option \<Rightarrow> 's \<Rightarrow> error option \<times> 's"
  shows "(\<And>path d err s. P s \<Longrightarrow> P (snd (fn path d err s))) \<Longrightarrow> P st \<Longrightarrow> P (snd (walkDir fn path n st))"
    and "(\<And>path d err s. P s \<Longrightarrow> P (snd (fn path d err s))) \<Longrightarrow> P st \<Longrightarrow> P (snd (walkChildren fn path cs st))"
proof (induction fn path n st and fn path cs st rule: walkDir_walkChildren.induct)
  case (1 fn path si dopen rd1 rd children st)
  let ?d = "Dir si dopen rd1 rd children"
  obtain e1 s1 where f1: "fn path (Some ?d) None st = (e1, s1)" by (cases "fn path (Some ?d) None st")
  have "s1 = snd (fn path (Some ?d) None st)" using f1 by simp
  then have p1: "P s1" using "1.prems"(1)[OF "1.prems"(2)] by blast
  show ?case
  proof (cases e1)
    case (Some e)
    then show ?thesis using f1 p1 by simp
  next
    case None
    show ?thesis
    proof (cases rd)
      case (Some e)
      then show ?thesis using f1 None "1.prems"(1)[OF p1, of path "Some ?d" "Some e"] by simp
    next
      case rdNone: None
      have "P (snd (walkChildren fn path children s1))"
        using "1.IH"[OF f1[symmetric] None rdNone "1.prems"(1) p1] by blast
      then show ?thesis using f1 None rdNone by simp
    qed
  qed
next
  case (2 fn path si fopen content fcopy st)
  then show ?case by simp
next
  case (3 fn path si rl st)
  then show ?case by simp
next
  case (4 fn path st)
  then show ?case by simp
next
  case (5 fn path st)
  then show ?case by simp
next
  case (6 fn path c cs st)
  obtain e1 s1 where f1: "walkDir fn (filepath_Join [path, fst c]) (snd c) st = (e1, s1)"
    by (cases "walkDir fn (filepath_Join [path, fst c]) (snd c) st")
  have "s1 = snd (walkDir fn (filepath_Join [path, fst c]) (snd c) st)" using f1 by simp
  then have p1: "P s1" using "6.IH"(1)[OF "6.prems"] by blast
  show ?case
  proof (cases e1)
    case (Some e)
    then show ?thesis using f1 p1 by simp
  next
    case None
    have "P (snd (walkChildren fn path cs s1))"
      using "6.IH"(2)[OF f1[symmetric] None "6.prems"(1) p1] by blast
    then show ?thesis using f1 None by simp
  qed
qed

section \<open>The branches of the callback as equations\<close>

lemma tw_Write_snoc: "tw_Write (w @ [(h, d)]) b = w @ [(h, d @ b)]"
  by (simp add: tw_Write_def)

lemma addFile_stat_error:
  "addFile wfail name (File (Inl e) fopen content fcopy) st = (Some e, st)"
  by (simp add: addFile_def)

lemma addFile_seen:
  assumes "seen st (Devino (st_Dev s) (st_Ino s)) = Some orig"
  shows "addFile wfail name (File (Inr s) fopen content fcopy) st =
     (case wfail (tw st) \<lparr>Typeflag = TypeLink, Name = name, Linkname = orig, Size = 0, Uid = 0, Gid = 0\<rparr> of
        Some e \<Rightarrow> (Some e, st)
      | None \<Rightarrow> (None, st\<lparr>tw := tw st @
           [(\<lparr>Typeflag = TypeLink, Name = name, Linkname = orig, Size = 0, Uid = 0, Gid = 0\<rparr>, [])]\<rparr>))"
  using assms
  by (simp add: addFile_def CheckHardLink_def FileInfoHeader_def WriteHeader_def Let_def
      split: option.splits)

lemma addFile_unseen:
  assumes "seen st (Devino (st_Dev s) (st_Ino s)) = None"
  shows "addFile wfail name (File (Inr s) fopen content fcopy) st =
     (case fopen of
        Some e \<Rightarrow> (Some e, st)
      | None \<Rightarrow>
         (case wfail (tw st) \<lparr>Typeflag = TypeReg, Name = name, Linkname = [], Size = int (length content), Uid = 0, Gid = 0\<rparr> of
            Some e \<Rightarrow> (Some e, st)
          | None \<Rightarrow>
             (case fcopy of
                None \<Rightarrow> (None, \<lparr>seen = (if 1 < st_Nlink s
                                          then (seen st)(Devino (st_Dev s) (st_Ino s) \<mapsto> name) else seen st),
                                  tw = tw st @ [(\<lparr>Typeflag = TypeReg, Name = name, Linkname = [],
                                     Size = int (length content), Uid = 0, Gid = 0\<rparr>, content)]\<rparr>)
              | Some (n, e) \<Rightarrow> (Some e, \<lparr>seen = seen st,
                                  tw = tw st @ [(\<lparr>Typeflag = TypeReg, Name = name, Linkname = [],
                                     Size = int (length content), Uid = 0, Gid = 0\<rparr>, take n content)]\<rparr>))))"
  using assms
  by (simp add: addFile_def CheckHardLink_def FileInfoHeader_def WriteHeader_def io_Copy_def
        tw_Write_snoc Let_def
      split: option.splits prod.splits)

lemma addDir_eq:
  "addDir wfail name (Dir si dopen rd1 rd cs) st =
     (case si of
        Inl e \<Rightarrow> (Some e, st)
      | Inr s \<Rightarrow>
         (case wfail (tw st) \<lparr>Typeflag = TypeDir, Name = name, Linkname = [], Size = 0, Uid = 0, Gid = 0\<rparr> of
            Some e \<Rightarrow> (Some e, st)
          | None \<Rightarrow> (None, st\<lparr>tw := tw st @
               [(\<lparr>Typeflag = TypeDir, Name = name, Linkname = [], Size = 0, Uid = 0, Gid = 0\<rparr>, [])]\<rparr>)))"
  by (simp add: addDir_def FileInfoHeader_def WriteHeader_def Let_def
      split: sum.splits option.splits)

lemma addSymlink_eq:
  "addSymlink wfail name (Symlink si rl) st =
     (case rl of
        Inl e \<Rightarrow> (Some e, st)
      | Inr link \<Rightarrow>
         (case si of
            Inl e \<Rightarrow> (Some e, st)
          | Inr s \<Rightarrow>
             (case wfail (tw st) \<lparr>Typeflag = TypeSymlink, Name = name, Linkname = link, Size = 0, Uid = 0, Gid = 0\<rparr> of
                Some e \<Rightarrow> (Some e, st)
              | None \<Rightarrow> (None, st\<lparr>tw := tw st @
                   [(\<lparr>Typeflag = TypeSymlink, Name = name, Linkname = link, Size = 0, Uid = 0, Gid = 0\<rparr>, [])]\<rparr>))))"
  by (simp add: addSymlink_def FileInfoHeader_def WriteHeader_def Let_def
      split: sum.splits option.splits)

lemma addEntry_File:
  "addEntry wfail name (File si fopen content fcopy) st = addFile wfail name (File si fopen content fcopy) st"
  by (simp add: addEntry_def)

lemma HasPrefix_append: "HasPrefix (p @ r) p"
  by (induction p) auto

lemma TrimPrefix_append: "TrimPrefix (p @ r) p = r"
  by (simp add: TrimPrefix_def HasPrefix_append)

lemma entryName_root: "entryName 0 source source = []"
  using TrimPrefix_append[of source "[]"] by (simp add: entryName_def)

lemma walkFn_file_cases:
  "walkFn wfail pm i source path (Some (File si fopen content fcopy)) None st =
     (let name = entryName i source path in
      if \<not> IsAbs name then
        (case pm name of
           Inl e \<Rightarrow> (Some (ErrCheckExcluded name e), st)
         | Inr excluded \<Rightarrow> if excluded then (None, st) else addFile wfail name (File si fopen content fcopy) st)
      else addFile wfail name (File si fopen content fcopy) st)"
  by (auto simp: walkFn_def rootCheck_def addEntry_File Let_def split: sum.splits)

lemma walkFn_empty_root:
  assumes "pm [] = Inr False"
    and "wfail (tw st) \<lparr>Typeflag = TypeDir, Name = [], Linkname = [], Size = 0, Uid = 0, Gid = 0\<rparr> = None"
  shows "walkFn wfail pm 0 source source (Some (Dir (Inr s) None rd1 rd [])) None st =
     (None, st\<lparr>tw := tw st @ [(\<lparr>Typeflag = TypeDir, Name = [], Linkname = [], Size = 0, Uid = 0, Gid = 0\<rparr>, [])]\<rparr>)"
  using assms
  by (simp add: walkFn_def rootCheck_def entryName_root IsAbs_def addEntry_def addDir_eq)

section \<open>From the callback to the whole build\<close>

lemma walkFn_preserves:
  assumes "\<And>name d s. P s \<Longrightarrow> P (snd (addEntry wfail name d s))" and "P st"
  shows "P (snd (walkFn wfail pm i source path dentry err st))"
  using assms
  by (auto simp: walkFn_def Let_def split: option.splits prod.splits bool.splits sum.splits)

lemma WalkDir_preserves:
  assumes "\<And>path d err s. P s \<Longrightarrow> P (snd (fn path d err s))" and "P st"
  shows "P (snd (WalkDir lstat root fn st))"
  using assms walk_invariant(1)[of P fn st root]
  by (auto simp: WalkDir_def split: sum.splits)


lemma sourcesLoop_preserves:
  assumes "\<And>name d s. P s \<Longrightarrow> P (snd (addEntry (tw_fail E) name d s))"
  shows "P st \<Longrightarrow> P (fst (sourcesLoop E pm i srcs st merr))"
proof (induction srcs arbitrary: i st merr)
  case Nil
  then show ?case by simp
next
  case (Cons src srcs)
  show ?case
  proof (cases "filepath_Abs E src")
    case (Inl e)
    then show ?thesis using Cons.prems by simp
  next
    case (Inr source)
    obtain err st' where w: "WalkDir (os_Lstat E) source (walkFn (tw_fail E) pm i source) st = (err, st')"
      by (cases "WalkDir (os_Lstat E) source (walkFn (tw_fail E) pm i source) st")
    have "P (snd (WalkDir (os_Lstat E) source (walkFn (tw_fail E) pm i source) st))"
      by (rule WalkDir_preserves) (auto intro: walkFn_preserves assms Cons.prems)
    then have "P st'" using w by simp
    then show ?thesis using Inr w Cons.IH by simp
  qed
qed

lemma errs_Append: "errs (Append merr err) = errs merr @ (case err of None \<Rightarrow> [] | Some e \<Rightarrow> [e])"
  by (simp add: errs_def Append_def)

lemma closeFn_errs: "closeFn merr = ErrorOrNil (errs merr)"
  by (simp add: closeFn_def errs_def Append_def ErrorOrNil_def split: option.splits)

lemma CreateTar_Inr:
  assumes "CreateTar E excludes sources = Inr rc"
  shows "\<exists>pm. NewPatternMatcher E excludes = Inr pm \<and> sources \<noteq> [] \<and>
     rc = \<lparr>rc_entries = tw (fst (sourcesLoop E pm 0 sources \<lparr>seen = Map.empty, tw = []\<rparr> None)),
           rc_read_err = None,
           rc_close = ErrorOrNil (errs (snd (sourcesLoop E pm 0 sources \<lparr>seen = Map.empty, tw = []\<rparr> None)))\<rparr>"
  using assms
  by (auto simp: CreateTar_def closeFn_errs split: sum.splits if_splits prod.splits)

lemma CreateTar_invariant:
  assumes "CreateTar E excludes sources = Inr rc"
    and "\<And>name d s. P s \<Longrightarrow> P (snd (addEntry (tw_fail E) name d s))"
    and "P \<lparr>seen = Map.empty, tw = []\<rparr>"
  shows "\<exists>st. P st \<and> rc_entries rc = tw st"
proof -
  obtain pm where pm: "NewPatternMatcher E excludes = Inr pm"
    using assms(1) by (cases "NewPatternMatcher E excludes") (auto simp: CreateTar_def)
  obtain st merr where l: "sourcesLoop E pm 0 sources \<lparr>seen = Map.empty, tw = []\<rparr> None = (st, merr)"
    by (cases "sourcesLoop E pm 0 sources \<lparr>seen = Map.empty, tw = []\<rparr> None")
  have "P (fst (sourcesLoop E pm 0 sources \<lparr>seen = Map.empty, tw = []\<rparr> None))"
    by (rule sourcesLoop_preserves) (auto intro: assms)
  then have "P st" using l by simp
  moreover have "rc_entries rc = tw st"
    using assms(1) pm l by (auto simp: CreateTar_def split: if_splits)
  ultimately show ?thesis by blast
qed

lemma sourcesLoop_errs_grow:
  "\<exists>more. errs (snd (sourcesLoop E pm i srcs st merr)) = errs merr @ more"
proof (induction srcs arbitrary: i st merr)
  case Nil
  then show ?case by simp
next
  case (Cons src srcs)
  show ?case
  proof (cases "filepath_Abs E src")
    case (Inl e)
    then show ?thesis by (simp add: errs_Append)
  next
    case (Inr source)
    obtain err st' where w: "WalkDir (os_Lstat E) source (walkFn (tw_fail E) pm i source) st = (err, st')"
      by (cases "WalkDir (os_Lstat E) source (walkFn (tw_fail E) pm i source) st")
    obtain more where "errs (snd (sourcesLoop E pm (Suc i) srcs st' (Append merr err))) = errs (Append merr err) @ more"
      using Cons.IH by blast
    then show ?thesis using Inr w by (simp add: errs_Append)
  qed
qed

lemma sourcesLoop_error_collected:
  assumes "filepath_Abs E src = Inr source"
    and "WalkDir (os_Lstat E) source (walkFn (tw_fail E) pm i source) st = (Some e, st')"
  shows "sourcesLoop E pm i (src # srcs) st merr = sourcesLoop E pm (Suc i) srcs st' (Append merr (Some e))"
    and "e \<in> set (errs (snd (sourcesLoop E pm i (src # srcs) st merr)))"
proof -
  show eq: "sourcesLoop E pm i (src # srcs) st merr = sourcesLoop E pm (Suc i) srcs st' (Append merr (Some e))"
    using assms by simp
  obtain more where
    "errs (snd (sourcesLoop E pm (Suc i) srcs st' (Append merr (Some e)))) = errs (Append merr (Some e)) @ more"
    using sourcesLoop_errs_grow by blast
  then show "e \<in> set (errs (snd (sourcesLoop E pm i (src # srcs) st merr)))"
    using eq by (simp add: errs_Append)
qed

lemma extra_root_walk_fails:
  assumes "0 < i" and "rejectedExtraRoot (lstat source)"
  shows "\<exists>e. WalkDir lstat source (walkFn wfail pm i source) st = (Some e, st)"
proof (cases "lstat source")
  case (Inl e)
  then show ?thesis by (simp add: WalkDir_def walkFn_def)
next
  case (Inr d)
  then show ?thesis using assms
    by (cases d) (auto simp: WalkDir_def walkFn_def rootCheck_def rejectedExtraRoot_def
        split: option.splits)
qed

lemma sourcesLoop_rejected_root:
  assumes "k < length srcs" and "0 < i + k" and "filepath_Abs E (srcs ! k) = Inr source"
    and "rejectedExtraRoot (os_Lstat E source)"
  shows "errs (snd (sourcesLoop E pm i srcs st merr)) \<noteq> []"
  using assms
proof (induction srcs arbitrary: i k st merr)
  case Nil
  then show ?case by simp
next
  case (Cons src srcs)
  show ?case
  proof (cases "filepath_Abs E src")
    case (Inl e)
    then show ?thesis by (simp add: errs_Append)
  next
    case (Inr source0)
    obtain err st' where w: "WalkDir (os_Lstat E) source0 (walkFn (tw_fail E) pm i source0) st = (err, st')"
      by (cases "WalkDir (os_Lstat E) source0 (walkFn (tw_fail E) pm i source0) st")
    show ?thesis
    proof (cases k)
      case 0
      then have "source0 = source" and "0 < i" using Cons.prems Inr by auto
      then obtain e where "err = Some e"
        using extra_root_walk_fails[of i "os_Lstat E" source "tw_fail E" pm st] Cons.prems(4) w by auto
      moreover obtain more where
        "errs (snd (sourcesLoop E pm (Suc i) srcs st' (Append merr err))) = errs (Append merr err) @ more"
        using sourcesLoop_errs_grow by blast
      ultimately show ?thesis using Inr w by (simp add: errs_Append)
    next
      case (Suc k')
      then have "errs (snd (sourcesLoop E pm (Suc i) srcs st' (Append merr err))) \<noteq> []"
        using Cons.IH[of k' "Suc i" st' "Append merr err"] Cons.prems by simp
      then show ?thesis using Inr w by simp
    qed
  qed
qed

section \<open>Owners, hard links and the identity map\<close>

lemma addEntry_zeroOwner:
  assumes "zeroOwner (tw st)"
  shows "zeroOwner (tw (snd (addEntry wfail name d st)))"
proof (cases d)
  case (File si fopen content fcopy)
  show ?thesis
  proof (cases si)
    case (Inl e)
    then show ?thesis using assms File by (simp add: addEntry_def addFile_stat_error)
  next
    case (Inr s)
    show ?thesis
    proof (cases "seen st (Devino (st_Dev s) (st_Ino s))")
      case None
      then show ?thesis using assms File Inr
        by (auto simp: addEntry_def addFile_unseen zeroOwner_def split: option.splits)
    next
      case (Some orig)
      then show ?thesis using assms File Inr
        by (auto simp: addEntry_def addFile_seen zeroOwner_def split: option.splits)
    qed
  qed
next
  case (Dir si dopen rd1 rd cs)
  then show ?thesis using assms
    by (auto simp: addEntry_def addDir_eq zeroOwner_def split: option.splits sum.splits)
next
  case (Symlink si rl)
  then show ?thesis using assms
    by (auto simp: addEntry_def addSymlink_eq zeroOwner_def split: option.splits sum.splits)
next
  case Irregular
  then show ?thesis using assms by (simp add: addEntry_def)
qed

lemma linksResolved_snoc:
  assumes "linksResolved w"
    and "Typeflag (fst e) = TypeLink \<Longrightarrow> \<exists>c \<in> set w. Name (fst c) = Linkname (fst e) \<and> fullEntry c"
  shows "linksResolved (w @ [e])"
  unfolding linksResolved_def
proof (intro allI impI)
  fix j
  assume j: "j < length (w @ [e])" and l: "Typeflag (fst ((w @ [e]) ! j)) = TypeLink"
  show "\<exists>k<j. Name (fst ((w @ [e]) ! k)) = Linkname (fst ((w @ [e]) ! j)) \<and> fullEntry ((w @ [e]) ! k)"
  proof (cases "j < length w")
    case True
    then obtain k where "k < j" "Name (fst (w ! k)) = Linkname (fst (w ! j))" "fullEntry (w ! k)"
      using assms(1) l by (auto simp: linksResolved_def nth_append)
    then show ?thesis using True by (auto simp: nth_append intro!: exI[of _ k])
  next
    case False
    then have je: "j = length w" using j by simp
    then have "Typeflag (fst e) = TypeLink" using l by simp
    then obtain c where "c \<in> set w" "Name (fst c) = Linkname (fst e)" "fullEntry c"
      using assms(2) by blast
    then obtain k where "k < length w" "w ! k = c" by (auto simp: in_set_conv_nth)
    then show ?thesis using je \<open>Name (fst c) = Linkname (fst e)\<close> \<open>fullEntry c\<close>
      by (auto simp: nth_append intro!: exI[of _ k])
  qed
qed

lemma addEntry_links:
  assumes "linksResolved (tw st) \<and> seenWritten st"
  shows "linksResolved (tw (snd (addEntry wfail name d st))) \<and> seenWritten (snd (addEntry wfail name d st))"
proof (cases d)
  case (File si fopen content fcopy)
  show ?thesis
  proof (cases si)
    case (Inl e)
    then show ?thesis using assms File by (simp add: addEntry_def addFile_stat_error)
  next
    case (Inr s)
    let ?di = "Devino (st_Dev s) (st_Ino s)"
    show ?thesis
    proof (cases "seen st ?di")
      case None
      have sw: "seenWritten \<lparr>seen = m, tw = tw st @ [e]\<rparr>"
        if "\<And>di n. m di = Some n \<Longrightarrow> seen st di = Some n \<or> (Name (fst e) = n \<and> fullEntry e)" for m e
        using assms that unfolding seenWritten_def by (fastforce)
      show ?thesis using assms File Inr None
        by (auto simp: addEntry_def addFile_unseen fullEntry_def
            intro!: linksResolved_snoc sw split: option.splits if_splits)
    next
      case (Some orig)
      have "\<exists>c \<in> set (tw st). Name (fst c) = orig \<and> fullEntry c"
        using assms Some unfolding seenWritten_def by blast
      then obtain c where "c \<in> set (tw st)" "Name (fst c) = orig" "fullEntry c"
        by blast
      then show ?thesis using assms File Inr Some
        by (auto simp: addEntry_def addFile_seen seenWritten_def
            intro!: linksResolved_snoc split: option.splits)
    qed
  qed
next
  case (Dir si dopen rd1 rd cs)
  then show ?thesis using assms
    by (auto simp: addEntry_def addDir_eq seenWritten_def
        intro!: linksResolved_snoc split: option.splits sum.splits)
next
  case (Symlink si rl)
  then show ?thesis using assms
    by (auto simp: addEntry_def addSymlink_eq seenWritten_def
        intro!: linksResolved_snoc split: option.splits sum.splits)
next
  case Irregular
  then show ?thesis using assms by (simp add: addEntry_def)
qed

lemma CreateTar_linksResolved:
  assumes "CreateTar E excludes sources = Inr rc"
  shows "linksResolved (rc_entries rc)"
proof -
  have "\<exists>st::wstate. (linksResolved (tw st) \<and> seenWritten st) \<and> rc_entries rc = tw st"
  proof (rule CreateTar_invariant[of E excludes sources rc "\<lambda>s. linksResolved (tw s) \<and> seenWritten s", OF assms])
    show "\<And>name d s. linksResolved (tw s) \<and> seenWritten s \<Longrightarrow>
        linksResolved (tw (snd (addEntry (tw_fail E) name d s))) \<and> seenWritten (snd (addEntry (tw_fail E) name d s))"
      by (rule addEntry_links)
    show "linksResolved (tw \<lparr>seen = Map.empty, tw = []\<rparr>) \<and> seenWritten \<lparr>seen = Map.empty, tw = []\<rparr>"
      by (simp add: linksResolved_def seenWritten_def)
  qed
  then show ?thesis by auto
qed




lemma addEntry_seen_nonfile:
  assumes "\<not> IsRegular d"
  shows "seen (snd (addEntry wfail name d st)) = seen st"
  using assms
  by (cases d) (auto simp: addEntry_def addDir_eq addSymlink_eq split: option.splits sum.splits)

lemma walkFn_seen_nonfile:
  assumes "dentry = None \<or> err \<noteq> None \<or> (\<exists>d. dentry = Some d \<and> \<not> IsRegular d)"
  shows "seen (snd (walkFn wfail pm i source path dentry err st)) = seen st"
  using assms
  by (auto simp: walkFn_def Let_def addEntry_seen_nonfile
      split: option.splits prod.splits bool.splits sum.splits)

lemma walkFn_seen_change:
  assumes w: "walkFn wfail pm i source path dentry err st = (r, st')" and ch: "seen st' \<noteq> seen st"
  shows "r = None \<and>
     (\<exists>s fopen content fcopy.
        dentry = Some (File (Inr s) fopen content fcopy) \<and> 1 < st_Nlink s \<and>
        seen st (Devino (st_Dev s) (st_Ino s)) = None \<and>
        seen st' = (seen st)(Devino (st_Dev s) (st_Ino s) \<mapsto> entryName i source path) \<and>
        tw st' = tw st @ [(\<lparr>Typeflag = TypeReg, Name = entryName i source path, Linkname = [],
                             Size = int (length content), Uid = 0, Gid = 0\<rparr>, content)]) \<and>
     (IsAbs (entryName i source path) \<or> pm (entryName i source path) = Inr False)"
proof -
  have "\<not> (dentry = None \<or> err \<noteq> None \<or> (\<exists>d. dentry = Some d \<and> \<not> IsRegular d))"
    using walkFn_seen_nonfile[of dentry err wfail pm i source path st] w ch by auto
  then obtain si fopen content fcopy where d: "dentry = Some (File si fopen content fcopy)" and e: "err = None"
    by (cases dentry; cases "the dentry") auto
  let ?name = "entryName i source path"
  have ne: "st' \<noteq> st" using ch by auto
  have add: "addFile wfail ?name (File si fopen content fcopy) st = (r, st')"
    and nx: "IsAbs ?name \<or> pm ?name = Inr False"
    using w ne d e
    by (auto simp: walkFn_file_cases Let_def split: if_splits sum.splits)
  show ?thesis
  proof (cases si)
    case (Inl x)
    then show ?thesis using add ne by (simp add: addFile_stat_error)
  next
    case (Inr s)
    show ?thesis
    proof (cases "seen st (Devino (st_Dev s) (st_Ino s))")
      case None
      then show ?thesis using add ch d Inr nx
        by (auto simp: addFile_unseen split: option.splits if_splits)
    next
      case (Some orig)
      then show ?thesis using add ch Inr
        by (auto simp: addFile_seen split: option.splits)
    qed
  qed
qed










section \<open>Failures of an entry and later occurrences of a link\<close>


lemma walkFn_dir_cases:
  assumes "path \<noteq> source"
  shows "walkFn wfail pm 0 source path (Some (Dir si dopen rd1 rd children)) None st =
     (let name = entryName 0 source path in
      if \<not> IsAbs name then
        (case pm name of
           Inl e \<Rightarrow> (Some (ErrCheckExcluded name e), st)
         | Inr excluded \<Rightarrow> if excluded then (None, st) else addDir wfail name (Dir si dopen rd1 rd children) st)
      else addDir wfail name (Dir si dopen rd1 rd children) st)"
  using assms by (auto simp: walkFn_def rootCheck_def addEntry_def Let_def split: sum.splits)

lemma walkFn_symlink_cases:
  "walkFn wfail pm 0 source path (Some (Symlink si rl)) None st =
     (let name = entryName 0 source path in
      if \<not> IsAbs name then
        (case pm name of
           Inl e \<Rightarrow> (Some (ErrCheckExcluded name e), st)
         | Inr excluded \<Rightarrow> if excluded then (None, st) else addSymlink wfail name (Symlink si rl) st)
      else addSymlink wfail name (Symlink si rl) st)"
  by (auto simp: walkFn_def rootCheck_def addEntry_def Let_def split: sum.splits)

lemma walkDir_callback_error:
  assumes "fn path (Some d) None st = (Some e, st')"
  shows "walkDir fn path d st = (Some e, st')"
  using assms by (cases d) auto

lemma entry_failures:
  assumes nx: "IsAbs (entryName i source path) \<or> pm (entryName i source path) = Inr False"
  shows "walkFn wfail pm i source path (Some (File (Inl e) fopen content fcopy)) None st = (Some e, st)"
    and "seen st (Devino (st_Dev s) (st_Ino s)) = None \<Longrightarrow>
         walkFn wfail pm i source path (Some (File (Inr s) (Some e) content fcopy)) None st = (Some e, st)"
    and "seen st (Devino (st_Dev s) (st_Ino s)) = None \<Longrightarrow>
         wfail (tw st) \<lparr>Typeflag = TypeReg, Name = entryName i source path, Linkname = [],
                          Size = int (length content), Uid = 0, Gid = 0\<rparr> = None \<Longrightarrow>
         walkFn wfail pm i source path (Some (File (Inr s) None content (Some (n, e)))) None st =
           (Some e, \<lparr>seen = seen st,
                     tw = tw st @ [(\<lparr>Typeflag = TypeReg, Name = entryName i source path, Linkname = [],
                                      Size = int (length content), Uid = 0, Gid = 0\<rparr>, take n content)]\<rparr>)"
    and "i = 0 \<Longrightarrow> path \<noteq> source \<Longrightarrow>
         walkFn wfail pm i source path (Some (Dir (Inl e) dopen rd1 rd children)) None st = (Some e, st)"
    and "i = 0 \<Longrightarrow> walkFn wfail pm i source path (Some (Symlink si (Inl e))) None st = (Some e, st)"
    and "i = 0 \<Longrightarrow> walkFn wfail pm i source path (Some (Symlink (Inl e) (Inr link))) None st = (Some e, st)"
  using nx
  by (auto simp: walkFn_file_cases walkFn_dir_cases walkFn_symlink_cases Let_def addFile_stat_error
      addFile_unseen addDir_eq addSymlink_eq)


lemma walkChildren_prefix_error:
  assumes "walkChildren fn parent pre st = (None, st1)"
    and "walkDir fn (filepath_Join [parent, fst c]) (snd c) st1 = (Some e, st2)"
  shows "walkChildren fn parent (pre @ c # post) st = (Some e, st2)"
  using assms
proof (induction pre arbitrary: st)
  case Nil
  then show ?case by (simp del: filepath_Join.simps)
next
  case (Cons a pre)
  obtain r s where w: "walkDir fn (filepath_Join [parent, fst a]) (snd a) st = (r, s)"
    by (cases "walkDir fn (filepath_Join [parent, fst a]) (snd a) st")
  show ?case
  proof (cases r)
    case None
    then have "walkChildren fn parent pre s = (None, st1)"
      using Cons.prems(1) w by (simp del: filepath_Join.simps)
    then have "walkChildren fn parent (pre @ c # post) s = (Some e, st2)"
      using Cons.IH Cons.prems(2) by blast
    then show ?thesis using w None by (simp del: filepath_Join.simps)
  next
    case (Some x)
    then show ?thesis using Cons.prems(1) w by (simp del: filepath_Join.simps)
  qed
qed

lemma walkDir_child_error:
  assumes "fn parent (Some (Dir si dopen rd1 None (pre @ c # post))) None st0 = (None, st1)"
    and "walkChildren fn parent pre st1 = (None, st2)"
    and "walkDir fn (filepath_Join [parent, fst c]) (snd c) st2 = (Some e, st3)"
  shows "walkDir fn parent (Dir si dopen rd1 None (pre @ c # post)) st0 = (Some e, st3)"
  using assms(1) walkChildren_prefix_error[OF assms(2,3)] by simp

lemma Close_reports:
  assumes c: "CreateTar E excludes (src # srcs) = Inr rc"
    and p: "NewPatternMatcher E excludes = Inr pm"
    and a: "filepath_Abs E src = Inr source"
    and w: "WalkDir (os_Lstat E) source (walkFn (tw_fail E) pm 0 source) initState = (Some e, st')"
  shows "rc_read_err rc = None \<and> (\<exists>es. rc_close rc = Some (MultiError es) \<and> e \<in> set es) \<and>
     rc_entries rc = tw (fst (sourcesLoop E pm 1 srcs st' (Some [e])))"
proof -
  let ?r = "sourcesLoop E pm 0 (src # srcs) initState None"
  have rc: "rc = \<lparr>rc_entries = tw (fst ?r), rc_read_err = None, rc_close = ErrorOrNil (errs (snd ?r))\<rparr>"
    using CreateTar_Inr[OF c] p by (auto simp: initState_def)
  have m: "e \<in> set (errs (snd ?r))"
    using sourcesLoop_error_collected(2)[OF a w] .
  have s: "?r = sourcesLoop E pm 1 srcs st' (Some [e])"
    using sourcesLoop_error_collected(1)[OF a w, of srcs None] by (simp add: Append_def)
  have "errs (snd ?r) \<noteq> []" using m by auto
  then have "rc_close rc = Some (MultiError (errs (snd ?r)))" using rc by (simp add: ErrorOrNil_def)
  then show ?thesis using rc m s by auto
qed

section \<open>Context selection\<close>

lemma documentsLoop_skip:
  assumes "\<forall>d \<in> set docs. \<exists>k. GetKubeKind K d = Inr k \<and> k \<noteq> ''Pod''"
  shows "documentsLoop K contextDir (docs @ rest) retained = documentsLoop K contextDir rest retained"
  using assms by (induction docs) auto

section \<open>Concrete runs\<close>

lemma example_run: "CreateTar exampleEnv [] [''/ctx''] = Inr rcCtx"
  by code_simp



lemma example_call_a:
  "callFn noFail (examplePM []) (exampleCall ''/ctx/a.txt'' exampleLinked) initState = (None, afterA)"
  "tw afterA = tw initState @
     [(\<lparr>Typeflag = TypeReg, Name = ''a.txt'', Linkname = [], Size = 5, Uid = 0, Gid = 0\<rparr>, ''hello'')]"
  by (simp_all add: afterA_def callFn_def exampleCall_def exampleLinked_def walkFn_file_cases
      entryName_def TrimPrefix_def IsAbs_def examplePM_def initState_def addFile_unseen noFail_def
      exampleStat_def Let_def)

lemma example_run_bad: "CreateTar exampleEnv [] [''/bad'', ''/tmp/kube''] = Inr rcBad"
  by code_simp

lemma example_run_link: "CreateTar exampleEnv [] [''/ctx'', ''/link''] = Inr rcLink"
  by code_simp

lemma example_run_excluded: "CreateTar exampleEnv [''d'', ''!d/keep''] [''/ctx''] = Inr rcExcluded"
  by code_simp

section \<open>Claims\<close>



text \<open>
  C2, as amended: an error on one entry is returned by the callback. On a path that is
  not excluded, the callback returns the error of \<open>dentry.Info\<close> on a regular file, of
  \<open>os.Open\<close> on a file whose identity the map does not hold, and of \<open>io.Copy\<close> (after the
  header and the bytes copied so far were written); under the primary root it returns
  the error of \<open>dentry.Info\<close> on a directory or a symlink and of \<open>os.Readlink\<close>. An error
  the callback returns on an entry is the result of the walk of that entry, and the walk
  of a directory whose child fails, after the earlier children were walked without an
  error, ends there with that error: the later siblings are not visited. The error of
  the walk of a root is appended to the collected errors and the loop goes on with the
  next root. \<open>CreateTar\<close> itself returns a stream, reads of the stream end without an
  error, and \<open>Close\<close> returns the collected errors, which hold the error of the first
  root when its walk failed.
\<close>

theorem entry_error_ends_walk_of_root:
  "(IsAbs (entryName i source path) \<or> pm (entryName i source path) = Inr False
      \<longrightarrow> walkFn wfail pm i source path (Some (File (Inl e) fopen content fcopy)) None st = (Some e, st)) \<and>
   ((IsAbs (entryName i source path) \<or> pm (entryName i source path) = Inr False) \<and>
    seen st (Devino (st_Dev s) (st_Ino s)) = None
      \<longrightarrow> walkFn wfail pm i source path (Some (File (Inr s) (Some e) content fcopy)) None st = (Some e, st)) \<and>
   ((IsAbs (entryName i source path) \<or> pm (entryName i source path) = Inr False) \<and>
    seen st (Devino (st_Dev s) (st_Ino s)) = None \<and>
    wfail (tw st) \<lparr>Typeflag = TypeReg, Name = entryName i source path, Linkname = [],
                    Size = int (length content), Uid = 0, Gid = 0\<rparr> = None
      \<longrightarrow> walkFn wfail pm i source path (Some (File (Inr s) None content (Some (n, e)))) None st =
            (Some e, \<lparr>seen = seen st,
                      tw = tw st @ [(\<lparr>Typeflag = TypeReg, Name = entryName i source path, Linkname = [],
                                       Size = int (length content), Uid = 0, Gid = 0\<rparr>, take n content)]\<rparr>)) \<and>
   (path \<noteq> source \<and> (IsAbs (entryName 0 source path) \<or> pm (entryName 0 source path) = Inr False)
      \<longrightarrow> walkFn wfail pm 0 source path (Some (Dir (Inl e) dopen rd1 rd children)) None st = (Some e, st)) \<and>
   (IsAbs (entryName 0 source path) \<or> pm (entryName 0 source path) = Inr False
      \<longrightarrow> walkFn wfail pm 0 source path (Some (Symlink si (Inl e))) None st = (Some e, st) \<and>
          walkFn wfail pm 0 source path (Some (Symlink (Inl e) (Inr link))) None st = (Some e, st)) \<and>
   (walkFn wfail pm i source path (Some d) None st = (Some e, st')
      \<longrightarrow> walkDir (walkFn wfail pm i source) path d st = (Some e, st')) \<and>
   (walkFn wfail pm i source parent (Some (Dir sp dop rp None (pre @ c # post))) None st0 = (None, st1) \<and>
    walkChildren (walkFn wfail pm i source) parent pre st1 = (None, st2) \<and>
    walkDir (walkFn wfail pm i source) (filepath_Join [parent, fst c]) (snd c) st2 = (Some e, st3)
      \<longrightarrow> walkDir (walkFn wfail pm i source) parent (Dir sp dop rp None (pre @ c # post)) st0 =
            (Some e, st3)) \<and>
   (filepath_Abs E src = Inr source \<and>
    WalkDir (os_Lstat E) source (walkFn (tw_fail E) pm i source) st = (Some e, st')
      \<longrightarrow> sourcesLoop E pm i (src # srcs) st merr =
            sourcesLoop E pm (Suc i) srcs st' (Append merr (Some e)) \<and>
          e \<in> set (errs (snd (sourcesLoop E pm i (src # srcs) st merr)))) \<and>
   (CreateTar E excludes sources = Inr rc
      \<longrightarrow> (\<exists>pm0. NewPatternMatcher E excludes = Inr pm0 \<and> rc_read_err rc = None \<and>
            rc_close rc = ErrorOrNil (errs (snd
              (sourcesLoop E pm0 0 sources \<lparr>seen = Map.empty, tw = []\<rparr> None))))) \<and>
   (CreateTar E excludes (src # srcs) = Inr rc' \<and> NewPatternMatcher E excludes = Inr pm \<and>
    filepath_Abs E src = Inr source \<and>
    WalkDir (os_Lstat E) source (walkFn (tw_fail E) pm 0 source) initState = (Some e, st')
      \<longrightarrow> rc_read_err rc' = None \<and> (\<exists>es. rc_close rc' = Some (MultiError es) \<and> e \<in> set es) \<and>
          rc_entries rc' = tw (fst (sourcesLoop E pm 1 srcs st' (Some [e]))))"
proof (intro conjI impI)
  assume a: "IsAbs (entryName i source path) \<or> pm (entryName i source path) = Inr False"
  show "walkFn wfail pm i source path (Some (File (Inl e) fopen content fcopy)) None st = (Some e, st)"
    by (rule entry_failures(1)) (use a in auto)
next
  assume a: "(IsAbs (entryName i source path) \<or> pm (entryName i source path) = Inr False) \<and>
    seen st (Devino (st_Dev s) (st_Ino s)) = None"
  show "walkFn wfail pm i source path (Some (File (Inr s) (Some e) content fcopy)) None st = (Some e, st)"
    by (rule entry_failures(2)) (use a in auto)
next
  assume a: "(IsAbs (entryName i source path) \<or> pm (entryName i source path) = Inr False) \<and>
    seen st (Devino (st_Dev s) (st_Ino s)) = None \<and>
    wfail (tw st) \<lparr>Typeflag = TypeReg, Name = entryName i source path, Linkname = [],
                    Size = int (length content), Uid = 0, Gid = 0\<rparr> = None"
  show "walkFn wfail pm i source path (Some (File (Inr s) None content (Some (n, e)))) None st =
            (Some e, \<lparr>seen = seen st,
                      tw = tw st @ [(\<lparr>Typeflag = TypeReg, Name = entryName i source path, Linkname = [],
                                       Size = int (length content), Uid = 0, Gid = 0\<rparr>, take n content)]\<rparr>)"
    by (rule entry_failures(3)) (use a in auto)
next
  assume a: "path \<noteq> source \<and> (IsAbs (entryName 0 source path) \<or> pm (entryName 0 source path) = Inr False)"
  show "walkFn wfail pm 0 source path (Some (Dir (Inl e) dopen rd1 rd children)) None st = (Some e, st)"
    by (rule entry_failures(4)) (use a in auto)
next
  assume a: "IsAbs (entryName 0 source path) \<or> pm (entryName 0 source path) = Inr False"
  show "walkFn wfail pm 0 source path (Some (Symlink si (Inl e))) None st = (Some e, st)"
    by (rule entry_failures(5)) (use a in auto)
  show "walkFn wfail pm 0 source path (Some (Symlink (Inl e) (Inr link))) None st = (Some e, st)"
    by (rule entry_failures(6)) (use a in auto)
next
  assume "walkFn wfail pm i source path (Some d) None st = (Some e, st')"
  then show "walkDir (walkFn wfail pm i source) path d st = (Some e, st')"
    by (rule walkDir_callback_error)
next
  assume a: "walkFn wfail pm i source parent (Some (Dir sp dop rp None (pre @ c # post))) None st0 = (None, st1) \<and>
    walkChildren (walkFn wfail pm i source) parent pre st1 = (None, st2) \<and>
    walkDir (walkFn wfail pm i source) (filepath_Join [parent, fst c]) (snd c) st2 = (Some e, st3)"
  show "walkDir (walkFn wfail pm i source) parent (Dir sp dop rp None (pre @ c # post)) st0 = (Some e, st3)"
    by (rule walkDir_child_error[of _ _ _ _ _ _ _ _ _ st1 st2]) (use a in blast)+
next
  assume a: "filepath_Abs E src = Inr source \<and>
    WalkDir (os_Lstat E) source (walkFn (tw_fail E) pm i source) st = (Some e, st')"
  show "sourcesLoop E pm i (src # srcs) st merr = sourcesLoop E pm (Suc i) srcs st' (Append merr (Some e))"
    using a sourcesLoop_error_collected(1) by blast
  show "e \<in> set (errs (snd (sourcesLoop E pm i (src # srcs) st merr)))"
    using a sourcesLoop_error_collected(2) by blast
next
  assume "CreateTar E excludes sources = Inr rc"
  then obtain pm0 where "NewPatternMatcher E excludes = Inr pm0"
    and "rc = \<lparr>rc_entries = tw (fst (sourcesLoop E pm0 0 sources \<lparr>seen = Map.empty, tw = []\<rparr> None)),
           rc_read_err = None,
           rc_close = ErrorOrNil (errs (snd (sourcesLoop E pm0 0 sources \<lparr>seen = Map.empty, tw = []\<rparr> None)))\<rparr>"
    using CreateTar_Inr by blast
  then show "\<exists>pm0. NewPatternMatcher E excludes = Inr pm0 \<and> rc_read_err rc = None \<and>
            rc_close rc = ErrorOrNil (errs (snd
              (sourcesLoop E pm0 0 sources \<lparr>seen = Map.empty, tw = []\<rparr> None)))"
    by auto
next
  assume a: "CreateTar E excludes (src # srcs) = Inr rc' \<and> NewPatternMatcher E excludes = Inr pm \<and>
    filepath_Abs E src = Inr source \<and>
    WalkDir (os_Lstat E) source (walkFn (tw_fail E) pm 0 source) initState = (Some e, st')"
  have all: "rc_read_err rc' = None \<and> (\<exists>es. rc_close rc' = Some (MultiError es) \<and> e \<in> set es) \<and>
     rc_entries rc' = tw (fst (sourcesLoop E pm 1 srcs st' (Some [e])))"
    by (rule Close_reports[of E excludes src srcs rc' pm source e st']) (use a in blast)+
  show "rc_read_err rc' = None" using all by blast
  show "\<exists>es. rc_close rc' = Some (MultiError es) \<and> e \<in> set es" using all by blast
  show "rc_entries rc' = tw (fst (sourcesLoop E pm 1 srcs st' (Some [e])))" using all by blast
qed

theorem entry_error_ends_walk_of_root_witness:
  "examplePM [] (entryName 0 ''/bad'' ''/bad/x'') = Inr False \<and>
   walkFn noFail (examplePM []) 0 ''/bad'' ''/bad/x''
     (Some (File (Inl (ErrSys ''permission denied'')) None ''hello'' None)) None initState =
     (Some (ErrSys ''permission denied''), initState) \<and>
   seen initState (Devino (st_Dev (exampleStat 30 1)) (st_Ino (exampleStat 30 1))) = None \<and>
   walkFn noFail (examplePM []) 0 ''/bad'' ''/bad/x''
     (Some (File (Inr (exampleStat 30 1)) (Some (ErrSys ''permission denied'')) ''hello'' None)) None initState =
     (Some (ErrSys ''permission denied''), initState) \<and>
   noFail (tw initState)
     \<lparr>Typeflag = TypeReg, Name = entryName 0 ''/bad'' ''/bad/x'', Linkname = [],
       Size = int (length ''hello''), Uid = 0, Gid = 0\<rparr> = None \<and>
   walkFn noFail (examplePM []) 0 ''/bad'' ''/bad/x''
     (Some (File (Inr (exampleStat 30 1)) None ''hello'' (Some (2, ErrSys ''permission denied'')))) None
     initState =
     (Some (ErrSys ''permission denied''),
      \<lparr>seen = Map.empty,
       tw = [(\<lparr>Typeflag = TypeReg, Name = ''x'', Linkname = [], Size = 5, Uid = 0, Gid = 0\<rparr>, ''he'')]\<rparr>) \<and>
   ''/bad/x'' \<noteq> ''/bad'' \<and>
   walkFn noFail (examplePM []) 0 ''/bad'' ''/bad/x''
     (Some (Dir (Inl (ErrSys ''permission denied'')) None None None [exampleSibling])) None initState =
     (Some (ErrSys ''permission denied''), initState) \<and>
   walkFn noFail (examplePM []) 0 ''/bad'' ''/bad/x''
     (Some (Symlink (Inr (exampleStat 30 1)) (Inl (ErrSys ''permission denied'')))) None initState =
     (Some (ErrSys ''permission denied''), initState) \<and>
   walkFn noFail (examplePM []) 0 ''/bad'' ''/bad/x''
     (Some (Symlink (Inl (ErrSys ''permission denied'')) (Inr ''a.txt''))) None initState =
     (Some (ErrSys ''permission denied''), initState) \<and>
   walkFn noFail (examplePM []) 0 ''/bad'' ''/bad/x'' (Some (snd exampleDenied)) None initState =
     (Some (ErrSys ''permission denied''), initState) \<and>
   walkDir (walkFn noFail (examplePM []) 0 ''/bad'') ''/bad/x'' (snd exampleDenied) initState =
     (Some (ErrSys ''permission denied''), initState) \<and>
   walkFn noFail (examplePM []) 0 ''/bad'' ''/bad''
     (Some (Dir (Inr (exampleStat 6 2)) None None None [exampleSibling, exampleDenied, exampleManifest]))
     None initState = (None, initState) \<and>
   walkChildren (walkFn noFail (examplePM []) 0 ''/bad'') ''/bad'' [exampleSibling] initState =
     (None, \<lparr>seen = Map.empty,
             tw = [(\<lparr>Typeflag = TypeReg, Name = ''y'', Linkname = [], Size = 1, Uid = 0, Gid = 0\<rparr>, ''y'')]\<rparr>) \<and>
   walkDir (walkFn noFail (examplePM []) 0 ''/bad'') (filepath_Join [''/bad'', fst exampleDenied])
     (snd exampleDenied)
     \<lparr>seen = Map.empty,
      tw = [(\<lparr>Typeflag = TypeReg, Name = ''y'', Linkname = [], Size = 1, Uid = 0, Gid = 0\<rparr>, ''y'')]\<rparr> =
     (Some (ErrSys ''permission denied''),
      \<lparr>seen = Map.empty,
       tw = [(\<lparr>Typeflag = TypeReg, Name = ''y'', Linkname = [], Size = 1, Uid = 0, Gid = 0\<rparr>, ''y'')]\<rparr>) \<and>
   walkDir (walkFn noFail (examplePM []) 0 ''/bad'') ''/bad''
     (Dir (Inr (exampleStat 6 2)) None None None [exampleSibling, exampleDenied, exampleManifest])
     initState =
     (Some (ErrSys ''permission denied''),
      \<lparr>seen = Map.empty,
       tw = [(\<lparr>Typeflag = TypeReg, Name = ''y'', Linkname = [], Size = 1, Uid = 0, Gid = 0\<rparr>, ''y'')]\<rparr>) \<and>
   filepath_Abs exampleEnv ''/bad'' = Inr ''/bad'' \<and>
   WalkDir (os_Lstat exampleEnv) ''/bad'' (walkFn (tw_fail exampleEnv) (examplePM []) 0 ''/bad'')
     initState = (Some (ErrSys ''permission denied''), initState) \<and>
   sourcesLoop exampleEnv (examplePM []) 0 [''/bad'', ''/tmp/kube''] initState None =
     sourcesLoop exampleEnv (examplePM []) (Suc 0) [''/tmp/kube''] initState
       (Some [ErrSys ''permission denied'']) \<and>
   ErrSys ''permission denied'' \<in> set (errs (snd
     (sourcesLoop exampleEnv (examplePM []) 0 [''/bad'', ''/tmp/kube''] initState None))) \<and>
   CreateTar exampleEnv [] [''/bad'', ''/tmp/kube''] = Inr rcBad \<and>
   (\<exists>pm0. NewPatternMatcher exampleEnv [] = Inr pm0 \<and> rc_read_err rcBad = None \<and>
      rc_close rcBad = ErrorOrNil (errs (snd
        (sourcesLoop exampleEnv pm0 0 [''/bad'', ''/tmp/kube''] \<lparr>seen = Map.empty, tw = []\<rparr> None)))) \<and>
   NewPatternMatcher exampleEnv [] = Inr (examplePM []) \<and>
   rc_read_err rcBad = None \<and>
   (\<exists>es. rc_close rcBad = Some (MultiError es) \<and> ErrSys ''permission denied'' \<in> set es) \<and>
   rc_entries rcBad = tw (fst
     (sourcesLoop exampleEnv (examplePM []) 1 [''/tmp/kube''] initState (Some [ErrSys ''permission denied'']))) \<and>
   rc_close rcBad = Some (MultiError [ErrSys ''permission denied'']) \<and>
   rc_entries rcBad = [manifestEntry]"
proof -
  let ?e = "ErrSys ''permission denied''"
  let ?fn = "walkFn noFail (examplePM []) 0 ''/bad''"
  let ?sy = "\<lparr>seen = Map.empty,
      tw = [(\<lparr>Typeflag = TypeReg, Name = ''y'', Linkname = [], Size = 1, Uid = 0, Gid = 0\<rparr>, ''y'')]\<rparr>"
  have join_x: "filepath_Join [''/bad'', ''x''] = ''/bad/x''" by code_simp
  have join_y: "filepath_Join [''/bad'', ''y''] = ''/bad/y''" by code_simp
  have nm: "entryName 0 ''/bad'' ''/bad/x'' = ''x''" "entryName 0 ''/bad'' ''/bad/y'' = ''y''"
    by (simp_all add: entryName_def TrimPrefix_def)
  have h0: "examplePM [] (entryName 0 ''/bad'' ''/bad/x'') = Inr False"
    by (simp add: examplePM_def)
  have h1: "seen initState (Devino (st_Dev (exampleStat 30 1)) (st_Ino (exampleStat 30 1))) = None"
    by (simp add: initState_def)
  have h2: "noFail (tw initState)
      \<lparr>Typeflag = TypeReg, Name = entryName 0 ''/bad'' ''/bad/x'', Linkname = [],
        Size = int (length ''hello''), Uid = 0, Gid = 0\<rparr> = None"
    by (simp add: noFail_def)
  have h3: "''/bad/x'' \<noteq> ''/bad''" by simp
  have h4: "?fn ''/bad/x'' (Some (snd exampleDenied)) None initState = (Some ?e, initState)"
    by (simp add: exampleDenied_def walkFn_file_cases nm IsAbs_def examplePM_def addFile_unseen
        initState_def Let_def)
  have h5: "?fn ''/bad''
      (Some (Dir (Inr (exampleStat 6 2)) None None None ([exampleSibling] @ exampleDenied # [exampleManifest])))
      None initState = (None, initState)"
    by (simp add: walkFn_def rootCheck_def)
  have h6: "walkChildren ?fn ''/bad'' [exampleSibling] initState = (None, ?sy)"
    by (simp add: exampleSibling_def join_y walkFn_file_cases nm IsAbs_def examplePM_def addFile_unseen
        initState_def noFail_def exampleStat_def Let_def del: filepath_Join.simps)
  have h7: "walkDir ?fn (filepath_Join [''/bad'', fst exampleDenied]) (snd exampleDenied) ?sy = (Some ?e, ?sy)"
    by (simp add: exampleDenied_def join_x walkFn_file_cases nm IsAbs_def examplePM_def addFile_unseen
        Let_def del: filepath_Join.simps)
  have h8: "filepath_Abs exampleEnv ''/bad'' = Inr ''/bad''"
    by (simp add: exampleEnv_def)
  have root: "?fn ''/bad''
      (Some (Dir (Inr (exampleStat 6 2)) None None None [exampleDenied, exampleSibling])) None initState =
      (None, initState)"
    by (simp add: walkFn_def rootCheck_def)
  have den: "walkDir ?fn (filepath_Join [''/bad'', fst exampleDenied]) (snd exampleDenied) initState =
      (Some ?e, initState)"
    by (simp add: exampleDenied_def join_x walkFn_file_cases nm IsAbs_def examplePM_def addFile_unseen
        initState_def Let_def del: filepath_Join.simps)
  have h9: "WalkDir (os_Lstat exampleEnv) ''/bad'' (walkFn (tw_fail exampleEnv) (examplePM []) 0 ''/bad'')
     initState = (Some ?e, initState)"
    using den root by (simp add: WalkDir_def exampleEnv_def exampleFS_def del: filepath_Join.simps)
  have h10: "NewPatternMatcher exampleEnv [] = Inr (examplePM [])"
    by (simp add: exampleEnv_def exampleNewPatternMatcher_def)
  have h11: "CreateTar exampleEnv [] (''/bad'' # [''/tmp/kube'']) = Inr rcBad"
    using example_run_bad by simp
  note t = entry_error_ends_walk_of_root[where i = 0 and source = "''/bad''" and path = "''/bad/x''"
      and pm = "examplePM []" and wfail = noFail and e = ?e and fopen = None and content = "''hello''"
      and fcopy = None and st = initState and s = "exampleStat 30 1" and n = 2
      and dopen = None and ?rd1.0 = None and rd = None and children = "[exampleSibling]"
      and si = "Inr (exampleStat 30 1)" and link = "''a.txt''"
      and d = "snd exampleDenied" and st' = initState
      and parent = "''/bad''" and sp = "Inr (exampleStat 6 2)" and dop = None and rp = None
      and pre = "[exampleSibling]" and c = exampleDenied and post = "[exampleManifest]"
      and ?st0.0 = initState and ?st1.0 = initState and ?st2.0 = ?sy and ?st3.0 = ?sy
      and E = exampleEnv and src = "''/bad''" and srcs = "[''/tmp/kube'']" and merr = None
      and excludes = "[]" and sources = "[''/bad'', ''/tmp/kube'']" and rc = rcBad and rc' = rcBad]
  note r1 = t[THEN conjunct2] note r2 = r1[THEN conjunct2] note r3 = r2[THEN conjunct2]
  note r4 = r3[THEN conjunct2] note r5 = r4[THEN conjunct2] note r6 = r5[THEN conjunct2]
  note r7 = r6[THEN conjunct2] note r8 = r7[THEN conjunct2]
  have c1: "?fn ''/bad/x'' (Some (File (Inl ?e) None ''hello'' None)) None initState = (Some ?e, initState)"
    using t[THEN conjunct1] h0 by blast
  have c2: "?fn ''/bad/x'' (Some (File (Inr (exampleStat 30 1)) (Some ?e) ''hello'' None)) None initState =
      (Some ?e, initState)"
    using r1[THEN conjunct1] h0 h1 by blast
  have "?fn ''/bad/x'' (Some (File (Inr (exampleStat 30 1)) None ''hello'' (Some (2, ?e)))) None initState =
      (Some ?e, \<lparr>seen = seen initState,
         tw = tw initState @ [(\<lparr>Typeflag = TypeReg, Name = entryName 0 ''/bad'' ''/bad/x'', Linkname = [],
              Size = int (length ''hello''), Uid = 0, Gid = 0\<rparr>, take 2 ''hello'')]\<rparr>)"
    using r2[THEN conjunct1] h0 h1 h2 by blast
  then have c3: "?fn ''/bad/x'' (Some (File (Inr (exampleStat 30 1)) None ''hello'' (Some (2, ?e)))) None
      initState =
      (Some ?e, \<lparr>seen = Map.empty,
         tw = [(\<lparr>Typeflag = TypeReg, Name = ''x'', Linkname = [], Size = 5, Uid = 0, Gid = 0\<rparr>, ''he'')]\<rparr>)"
    by (simp add: nm initState_def)
  have c4: "?fn ''/bad/x'' (Some (Dir (Inl ?e) None None None [exampleSibling])) None initState =
      (Some ?e, initState)"
    using r3[THEN conjunct1] h0 h3 by blast
  have c5: "?fn ''/bad/x'' (Some (Symlink (Inr (exampleStat 30 1)) (Inl ?e))) None initState =
      (Some ?e, initState)"
    and c6: "?fn ''/bad/x'' (Some (Symlink (Inl ?e) (Inr ''a.txt''))) None initState = (Some ?e, initState)"
    using r4[THEN conjunct1] h0 by blast+
  have c7: "walkDir ?fn ''/bad/x'' (snd exampleDenied) initState = (Some ?e, initState)"
    using r5[THEN conjunct1] h4 by blast
  have "walkDir ?fn ''/bad''
      (Dir (Inr (exampleStat 6 2)) None None None ([exampleSibling] @ exampleDenied # [exampleManifest]))
      initState = (Some ?e, ?sy)"
    using r6[THEN conjunct1] h5 h6 h7 by blast
  then have c8: "walkDir ?fn ''/bad''
      (Dir (Inr (exampleStat 6 2)) None None None [exampleSibling, exampleDenied, exampleManifest])
      initState = (Some ?e, ?sy)"
    by (simp del: walkDir.simps)
  have h5': "?fn ''/bad''
      (Some (Dir (Inr (exampleStat 6 2)) None None None [exampleSibling, exampleDenied, exampleManifest]))
      None initState = (None, initState)"
    using h5 by simp
  have "sourcesLoop exampleEnv (examplePM []) 0 (''/bad'' # [''/tmp/kube'']) initState None =
        sourcesLoop exampleEnv (examplePM []) (Suc 0) [''/tmp/kube''] initState (Append None (Some ?e)) \<and>
      ?e \<in> set (errs (snd
        (sourcesLoop exampleEnv (examplePM []) 0 (''/bad'' # [''/tmp/kube'']) initState None)))"
    using r7[THEN conjunct1] h8 h9 by blast
  then have c9: "sourcesLoop exampleEnv (examplePM []) 0 [''/bad'', ''/tmp/kube''] initState None =
        sourcesLoop exampleEnv (examplePM []) (Suc 0) [''/tmp/kube''] initState (Some [?e])"
    and c10: "?e \<in> set (errs (snd
        (sourcesLoop exampleEnv (examplePM []) 0 [''/bad'', ''/tmp/kube''] initState None)))"
    unfolding Append_def by (simp_all only: conj_imp_eq_imp_imp option.simps append_Nil)
  have c11: "\<exists>pm0. NewPatternMatcher exampleEnv [] = Inr pm0 \<and> rc_read_err rcBad = None \<and>
      rc_close rcBad = ErrorOrNil (errs (snd
        (sourcesLoop exampleEnv pm0 0 [''/bad'', ''/tmp/kube''] \<lparr>seen = Map.empty, tw = []\<rparr> None)))"
    using r8[THEN conjunct1] example_run_bad by blast
  have c12: "rc_read_err rcBad = None \<and> (\<exists>es. rc_close rcBad = Some (MultiError es) \<and> ?e \<in> set es) \<and>
      rc_entries rcBad = tw (fst
        (sourcesLoop exampleEnv (examplePM []) 1 [''/tmp/kube''] initState (Some [?e])))"
    using r8[THEN conjunct2] h11 h10 h8 h9 by blast
  have c13: "rc_close rcBad = Some (MultiError [?e])" "rc_entries rcBad = [manifestEntry]"
    by (simp_all add: rcBad_def)
  show ?thesis
    using h0 c1 h1 c2 h2 c3 h3 c4 c5 c6 h4 c7 h5' h6 h7 c8 h8 h9 c9 c10 example_run_bad c11 h10 c12 c13
    by blast
qed

theorem entry_error_counterexample:
  "os_Lstat exampleEnv ''/bad'' =
     Inr (Dir (Inr (exampleStat 6 2)) None None None
       [(''x'', File (Inr (exampleStat 30 1)) (Some (ErrSys ''permission denied'')) ''x'' None),
        (''y'', File (Inr (exampleStat 31 1)) None ''y'' None)]) \<and>
   CreateTar exampleEnv [] [''/bad'', ''/tmp/kube''] =
     Inr \<lparr>rc_entries =
            [(\<lparr>Typeflag = TypeReg, Name = ''/tmp/kube/play.yaml'', Linkname = [], Size = 9, Uid = 0, Gid = 0\<rparr>,
              ''kind: Pod'')],
          rc_read_err = None, rc_close = Some (MultiError [ErrSys ''permission denied''])\<rparr>"
  using example_run_bad
  by (simp add: rcBad_def manifestEntry_def exampleEnv_def exampleFS_def exampleDenied_def
      exampleSibling_def)

text \<open>
  C3, as amended: a root at an index above 0 that is missing, a symlink, an irregular
  file, or a directory that is empty or cannot be opened or listed makes \<open>Close\<close> return
  an error. A non-empty directory that opens is not rejected: the callback returns
  \<open>nil\<close> on it and the walk goes on into its children.
\<close>

theorem extra_root_must_be_regular:
  "(CreateTar E excludes sources = Inr rc \<and> 0 < k \<and> k < length sources \<and>
      filepath_Abs E (sources ! k) = Inr source \<and> rejectedExtraRoot (os_Lstat E source)
        \<longrightarrow> rc_close rc \<noteq> None) \<and>
   (children \<noteq> []
        \<longrightarrow> walkFn wfail pm i root root (Some (Dir si None None rd children)) None st = (None, st))"
proof (intro conjI impI)
  assume a: "CreateTar E excludes sources = Inr rc \<and> 0 < k \<and> k < length sources \<and>
      filepath_Abs E (sources ! k) = Inr source \<and> rejectedExtraRoot (os_Lstat E source)"
  then obtain pm where rc: "rc_close rc =
      ErrorOrNil (errs (snd (sourcesLoop E pm 0 sources \<lparr>seen = Map.empty, tw = []\<rparr> None)))"
    using CreateTar_Inr[of E excludes sources rc] by auto
  have "errs (snd (sourcesLoop E pm 0 sources \<lparr>seen = Map.empty, tw = []\<rparr> None)) \<noteq> []"
    using a sourcesLoop_rejected_root[of k sources 0 E source pm] by simp
  then show "rc_close rc \<noteq> None" using rc by (simp add: ErrorOrNil_def)
next
  assume "children \<noteq> []"
  then show "walkFn wfail pm i root root (Some (Dir si None None rd children)) None st = (None, st)"
    by (simp add: walkFn_def rootCheck_def)
qed

theorem extra_root_must_be_regular_witness:
  "CreateTar exampleEnv [] [''/ctx'', ''/link''] = Inr rcLink \<and>
   (0::nat) < 1 \<and> 1 < length [''/ctx'', ''/link''] \<and>
   filepath_Abs exampleEnv ([''/ctx'', ''/link''] ! 1) = Inr ''/link'' \<and>
   rejectedExtraRoot (os_Lstat exampleEnv ''/link'') \<and>
   rc_close rcLink \<noteq> None \<and>
   [exampleManifest] \<noteq> [] \<and>
   walkFn noFail (examplePM []) 1 ''/tmp/kube'' ''/tmp/kube''
     (Some (Dir (Inr (exampleStat 5 2)) None None None [exampleManifest])) None initState =
     (None, initState)"
proof -
  have h1: "filepath_Abs exampleEnv ([''/ctx'', ''/link''] ! 1) = Inr ''/link''"
    by (simp add: exampleEnv_def)
  have h2: "rejectedExtraRoot (os_Lstat exampleEnv ''/link'')"
    by (simp add: exampleEnv_def exampleFS_def rejectedExtraRoot_def)
  note t = extra_root_must_be_regular[where E = exampleEnv and excludes = "[]"
      and sources = "[''/ctx'', ''/link'']" and rc = rcLink and k = 1 and source = "''/link''"
      and children = "[exampleManifest]" and wfail = noFail and pm = "examplePM []" and i = 1
      and root = "''/tmp/kube''" and si = "Inr (exampleStat 5 2)" and rd = None and st = initState]
  show ?thesis
    using t h1 h2 example_run_link by simp
qed

theorem extra_root_counterexample:
  "os_Lstat exampleEnv ''/tmp/kube'' =
     Inr (Dir (Inr (exampleStat 5 2)) None None None
       [(''play.yaml'', File (Inr (exampleStat 20 1)) None ''kind: Pod'' None)]) \<and>
   CreateTar exampleEnv [] [''/ctx'', ''/tmp/kube''] =
     Inr \<lparr>rc_entries = rc_entries rcCtx @
            [(\<lparr>Typeflag = TypeReg, Name = ''/tmp/kube/play.yaml'', Linkname = [], Size = 9, Uid = 0, Gid = 0\<rparr>,
              ''kind: Pod'')],
          rc_read_err = None, rc_close = None\<rparr>"
proof -
  have "CreateTar exampleEnv [] [''/ctx'', ''/tmp/kube''] =
     Inr \<lparr>rc_entries = rc_entries rcCtx @
            [(\<lparr>Typeflag = TypeReg, Name = ''/tmp/kube/play.yaml'', Linkname = [], Size = 9, Uid = 0, Gid = 0\<rparr>,
              ''kind: Pod'')],
          rc_read_err = None, rc_close = None\<rparr>"
    by code_simp
  then show ?thesis
    by (simp add: exampleEnv_def exampleFS_def exampleManifest_def)
qed

text \<open>
  C4: under the primary root (index 0), the callback on a path whose relative name the
  pattern set matches returns \<open>nil\<close> and writes nothing, and the walk of such a directory
  is the walk of its children: each of them is visited and tested by the callback in
  turn, so a later rule can re-include a descendant.
\<close>

theorem excluded_path_skipped_not_pruned:
  "(path \<noteq> source \<and> \<not> IsAbs (entryName 0 source path) \<and> pm (entryName 0 source path) = Inr True
      \<longrightarrow> walkFn wfail pm 0 source path (Some d) None st = (None, st)) \<and>
   (path \<noteq> source \<and> \<not> IsAbs (entryName 0 source path) \<and> pm (entryName 0 source path) = Inr True
      \<longrightarrow> walkDir (walkFn wfail pm 0 source) path (Dir si dopen rd1 None children) st =
          walkChildren (walkFn wfail pm 0 source) path children st)"
  by (auto simp: walkFn_def rootCheck_def Let_def)

theorem excluded_path_skipped_not_pruned_witness:
  "''/ctx/d'' \<noteq> ''/ctx'' \<and> \<not> IsAbs (entryName 0 ''/ctx'' ''/ctx/d'') \<and>
   examplePM [''d'', ''!d/keep''] (entryName 0 ''/ctx'' ''/ctx/d'') = Inr True \<and>
   walkFn noFail (examplePM [''d'', ''!d/keep'']) 0 ''/ctx'' ''/ctx/d'' (Some exampleSubdir) None initState =
     (None, initState) \<and>
   walkDir (walkFn noFail (examplePM [''d'', ''!d/keep'']) 0 ''/ctx'') ''/ctx/d''
     (Dir (Inr (exampleStat 3 2)) None None None
        [(''keep'', File (Inr (exampleStat 11 1)) None ''k'' None),
         (''skip'', File (Inr (exampleStat 12 1)) None ''s'' None)]) initState =
   walkChildren (walkFn noFail (examplePM [''d'', ''!d/keep'']) 0 ''/ctx'') ''/ctx/d''
        [(''keep'', File (Inr (exampleStat 11 1)) None ''k'' None),
         (''skip'', File (Inr (exampleStat 12 1)) None ''s'' None)] initState \<and>
   CreateTar exampleEnv [''d'', ''!d/keep''] [''/ctx''] = Inr rcExcluded \<and>
   map (\<lambda>e. Name (fst e)) (rc_entries rcExcluded) = [''a.txt'', ''b.txt'', ''d/keep'', ''l'']"
proof -
  have n: "entryName 0 ''/ctx'' ''/ctx/d'' = ''d''"
    by (simp add: entryName_def TrimPrefix_def)
  have h1: "''/ctx/d'' \<noteq> ''/ctx''" by simp
  have h2: "\<not> IsAbs (entryName 0 ''/ctx'' ''/ctx/d'')" by (simp add: n IsAbs_def)
  have h3: "examplePM [''d'', ''!d/keep''] (entryName 0 ''/ctx'' ''/ctx/d'') = Inr True"
    by (simp add: n examplePM_def ruleMatches_def)
  note t = excluded_path_skipped_not_pruned[where path = "''/ctx/d''" and source = "''/ctx''"
      and pm = "examplePM [''d'', ''!d/keep'']" and wfail = noFail and d = exampleSubdir
      and st = initState and si = "Inr (exampleStat 3 2)" and dopen = None and ?rd1.0 = None
      and children = "[(''keep'', File (Inr (exampleStat 11 1)) None ''k'' None),
         (''skip'', File (Inr (exampleStat 12 1)) None ''s'' None)]"]
  have names: "map (\<lambda>e. Name (fst e)) (rc_entries rcExcluded) = [''a.txt'', ''b.txt'', ''d/keep'', ''l'']"
    by (simp add: rcExcluded_def)
  show ?thesis
    using t h1 h2 h3 names example_run_excluded by simp
qed

text \<open>
  C5: the manifest has one Pod document, with one container, whose build file is
  \<open>source2/Containerfile\<close> under the context directory; the other documents are not
  pods; the context directory lists \<open>source1\<close> and \<open>source2\<close>. Then, for every context
  directory, the retained paths are \<open>play.yaml\<close> and the path of \<open>source2\<close>, the exclusion
  list is the path of \<open>source1\<close> alone (which is not retained), and that list is what
  \<open>CreateTar\<close> is called with.
\<close>

theorem context_selection_keeps_build_dir:
  "SplitMultiDocYAML K yaml = Inr (pre @ [doc] @ post) \<and>
   (\<forall>d \<in> set (pre @ post). \<exists>k. GetKubeKind K d = Inr k \<and> k \<noteq> ''Pod'') \<and>
   GetKubeKind K doc = Inr ''Pod'' \<and> UnmarshalPod K doc = Inr [img] \<and>
   GetBuildFile K img contextDir = Inr (filepath_Join [contextDir, ''source2'', ''Containerfile'']) \<and>
   os_Open K contextDir = None \<and> f_Readdir K contextDir = Inr names \<and>
   (names = [''source1'', ''source2''] \<or> names = [''source2'', ''source1''])
     \<longrightarrow> selectContext K yaml contextDir =
           Inr ([''play.yaml'', filepath_Join [contextDir, ''source2'']],
                [filepath_Join [contextDir, ''source1'']]) \<and>
         ''play.yaml'' \<noteq> filepath_Join [contextDir, ''source1''] \<and>
         filepath_Join [contextDir, ''source2''] \<noteq> filepath_Join [contextDir, ''source1''] \<and>
         (os_MkdirTemp K = Inr tmp \<and> os_WriteFile K (filepath_Join [tmp, ''play.yaml'']) yaml = None
            \<longrightarrow> getTarKubePlayContext K (Inr yaml) contextDir =
                  CreateTar (tarEnv K) [filepath_Join [contextDir, ''source1'']] [contextDir, tmp])"
proof (intro impI)
  assume a: "SplitMultiDocYAML K yaml = Inr (pre @ [doc] @ post) \<and>
   (\<forall>d \<in> set (pre @ post). \<exists>k. GetKubeKind K d = Inr k \<and> k \<noteq> ''Pod'') \<and>
   GetKubeKind K doc = Inr ''Pod'' \<and> UnmarshalPod K doc = Inr [img] \<and>
   GetBuildFile K img contextDir = Inr (filepath_Join [contextDir, ''source2'', ''Containerfile'']) \<and>
   os_Open K contextDir = None \<and> f_Readdir K contextDir = Inr names \<and>
   (names = [''source1'', ''source2''] \<or> names = [''source2'', ''source1''])"
  let ?s1 = "filepath_Join [contextDir, ''source1'']" and ?s2 = "filepath_Join [contextDir, ''source2'']"
  let ?bf = "filepath_Join [contextDir, ''source2'', ''Containerfile'']"
  have paths: "filepath_Dir ?bf = ?s2" "?s1 \<noteq> ?s2" "?s1 \<noteq> ''play.yaml''" "?bf \<noteq> []"
    using kube_paths[of contextDir] by blast+
  have pre: "\<forall>d \<in> set pre. \<exists>k. GetKubeKind K d = Inr k \<and> k \<noteq> ''Pod''"
    and post: "\<forall>d \<in> set post. \<exists>k. GetKubeKind K d = Inr k \<and> k \<noteq> ''Pod''"
    using a by auto
  have p2: "documentsLoop K contextDir post s = Inr s" for s
    using documentsLoop_skip[OF post, of contextDir "[]" s] by simp
  have cl: "containersLoop K contextDir [img] [''play.yaml''] = Inr [''play.yaml'', ?s2]"
  proof -
    have "containersLoop K contextDir [img] [''play.yaml''] =
        (if length ?bf = 0 then Inr [''play.yaml''] else Inr ([''play.yaml''] @ [filepath_Dir ?bf]))"
      using a by (simp del: filepath_Join.simps)
    then show ?thesis using paths(1,4) by (simp del: filepath_Join.simps)
  qed
  have "documentsLoop K contextDir (pre @ [doc] @ post) [''play.yaml''] =
        documentsLoop K contextDir ([doc] @ post) [''play.yaml'']"
    using documentsLoop_skip[OF pre] by blast
  also have "\<dots> = Inr [''play.yaml'', ?s2]"
    using a p2 cl by (simp del: filepath_Join.simps containersLoop.simps)
  finally have docs: "documentsLoop K contextDir (pre @ [doc] @ post) [''play.yaml''] =
        Inr [''play.yaml'', ?s2]" .
  have files: "OSReadDir K contextDir = Inr [?s1, ?s2] \<or> OSReadDir K contextDir = Inr [?s2, ?s1]"
    using a by (auto simp: OSReadDir_def simp del: filepath_Join.simps)
  have sel: "selectContext K yaml contextDir = Inr ([''play.yaml'', ?s2], [?s1])"
    using a docs files paths(2,3)
    by (auto simp: selectContext_def simp del: filepath_Join.simps)
  show "selectContext K yaml contextDir = Inr ([''play.yaml'', ?s2], [?s1]) \<and>
         ''play.yaml'' \<noteq> ?s1 \<and> ?s2 \<noteq> ?s1 \<and>
         (os_MkdirTemp K = Inr tmp \<and> os_WriteFile K (filepath_Join [tmp, ''play.yaml'']) yaml = None
            \<longrightarrow> getTarKubePlayContext K (Inr yaml) contextDir =
                  CreateTar (tarEnv K) [?s1] [contextDir, tmp])"
    using sel paths(2,3) by (auto simp: getTarKubePlayContext_def simp del: filepath_Join.simps)
qed

theorem context_selection_keeps_build_dir_witness:
  "SplitMultiDocYAML exampleKube ''kind: Pod'' = Inr ([] @ [''kind: Pod''] @ []) \<and>
   GetKubeKind exampleKube ''kind: Pod'' = Inr ''Pod'' \<and>
   UnmarshalPod exampleKube ''kind: Pod'' = Inr [''source2''] \<and>
   GetBuildFile exampleKube ''source2'' ''/ctx'' = Inr ''/ctx/source2/Containerfile'' \<and>
   f_Readdir exampleKube ''/ctx'' = Inr [''source1'', ''source2''] \<and>
   selectContext exampleKube ''kind: Pod'' ''/ctx'' = Inr ([''play.yaml'', ''/ctx/source2''], [''/ctx/source1'']) \<and>
   os_MkdirTemp exampleKube = Inr ''/tmp/kube'' \<and>
   getTarKubePlayContext exampleKube (Inr ''kind: Pod'') ''/ctx'' =
     CreateTar exampleEnv [''/ctx/source1''] [''/ctx'', ''/tmp/kube'']"
proof -
  have j: "filepath_Join [''/ctx'', ''source1''] = ''/ctx/source1''"
    "filepath_Join [''/ctx'', ''source2''] = ''/ctx/source2''"
    "filepath_Join [''/ctx'', ''source2'', ''Containerfile''] = ''/ctx/source2/Containerfile''"
    "filepath_Join [''/tmp/kube'', ''play.yaml''] = ''/tmp/kube/play.yaml''"
    by code_simp+
  have h: "SplitMultiDocYAML exampleKube ''kind: Pod'' = Inr ([] @ [''kind: Pod''] @ []) \<and>
   (\<forall>d \<in> set ([] @ []). \<exists>k. GetKubeKind exampleKube d = Inr k \<and> k \<noteq> ''Pod'') \<and>
   GetKubeKind exampleKube ''kind: Pod'' = Inr ''Pod'' \<and>
   UnmarshalPod exampleKube ''kind: Pod'' = Inr [''source2''] \<and>
   GetBuildFile exampleKube ''source2'' ''/ctx'' = Inr (filepath_Join [''/ctx'', ''source2'', ''Containerfile'']) \<and>
   os_Open exampleKube ''/ctx'' = None \<and> f_Readdir exampleKube ''/ctx'' = Inr [''source1'', ''source2''] \<and>
   ([''source1'', ''source2''] = [''source1'', ''source2''] \<or>
    [''source1'', ''source2''] = [''source2'', ''source1''])"
    by (simp add: exampleKube_def del: filepath_Join.simps)
  have k: "os_MkdirTemp exampleKube = Inr ''/tmp/kube''"
    "os_WriteFile exampleKube ''/tmp/kube/play.yaml'' ''kind: Pod'' = None"
    "tarEnv exampleKube = exampleEnv"
    by (simp_all add: exampleKube_def)
  note t = context_selection_keeps_build_dir[where K = exampleKube and yaml = "''kind: Pod''"
      and pre = "[]" and doc = "''kind: Pod''" and post = "[]" and img = "''source2''"
      and contextDir = "''/ctx''" and names = "[''source1'', ''source2'']" and tmp = "''/tmp/kube''"]
  show ?thesis
    using t h k unfolding j by (simp del: filepath_Join.simps)
qed

text \<open>
  C6, as amended: when the primary root (index 0) is an empty directory that opens,
  whose empty relative name the pattern set does not match, the walk of that root
  writes exactly one entry, a directory entry with the empty name, size 0 and owner
  0/0, and returns no error.
\<close>

theorem empty_root_dir_entry:
  assumes "os_Lstat E source = Inr (Dir (Inr s) None rd1 None [])"
    and "pm [] = Inr False"
    and "tw_fail E (tw st) \<lparr>Typeflag = TypeDir, Name = [], Linkname = [], Size = 0, Uid = 0, Gid = 0\<rparr> = None"
  shows "WalkDir (os_Lstat E) source (walkFn (tw_fail E) pm 0 source) st =
     (None, st\<lparr>tw := tw st @ [(\<lparr>Typeflag = TypeDir, Name = [], Linkname = [], Size = 0, Uid = 0, Gid = 0\<rparr>, [])]\<rparr>)"
  using assms by (simp add: WalkDir_def walkFn_empty_root)

theorem empty_root_dir_entry_witness:
  "os_Lstat exampleEnv ''/empty'' = Inr (Dir (Inr (exampleStat 4 2)) None None None []) \<and>
   examplePM [] [] = Inr False \<and>
   tw_fail exampleEnv (tw initState) emptyDirHeader = None \<and>
   WalkDir (os_Lstat exampleEnv) ''/empty'' (walkFn (tw_fail exampleEnv) (examplePM []) 0 ''/empty'')
     initState = (None, initState\<lparr>tw := tw initState @ [(emptyDirHeader, [])]\<rparr>)"
proof -
  have h1: "os_Lstat exampleEnv ''/empty'' = Inr (Dir (Inr (exampleStat 4 2)) None None None [])"
    by (simp add: exampleEnv_def exampleFS_def)
  have h2: "examplePM [] [] = Inr False" by (simp add: examplePM_def)
  have h3: "tw_fail exampleEnv (tw initState)
      \<lparr>Typeflag = TypeDir, Name = [], Linkname = [], Size = 0, Uid = 0, Gid = 0\<rparr> = None"
    by (simp add: exampleEnv_def noFail_def)
  show ?thesis
    using empty_root_dir_entry[where E = exampleEnv and source = "''/empty''"
        and pm = "examplePM []" and st = initState, OF h1 h2 h3] h1 h2 h3
    by (simp add: emptyDirHeader_def)
qed

theorem empty_root_counterexample:
  "os_Lstat exampleEnv ''/empty'' = Inr (Dir (Inr (exampleStat 4 2)) None None None []) \<and>
   CreateTar exampleEnv [] [''/empty''] =
     Inr \<lparr>rc_entries = [(\<lparr>Typeflag = TypeDir, Name = [], Linkname = [], Size = 0, Uid = 0, Gid = 0\<rparr>, [])],
          rc_read_err = None, rc_close = None\<rparr>"
proof -
  have "CreateTar exampleEnv [] [''/empty''] =
     Inr \<lparr>rc_entries = [(\<lparr>Typeflag = TypeDir, Name = [], Linkname = [], Size = 0, Uid = 0, Gid = 0\<rparr>, [])],
          rc_read_err = None, rc_close = None\<rparr>"
    by code_simp
  then show ?thesis by (simp add: exampleEnv_def exampleFS_def)
qed

text \<open>
  C7: with a malformed exclude-pattern set, or with no source at all, \<open>CreateTar\<close> returns
  an error and no stream; the result does not depend on the file system, on
  \<open>filepath.Abs\<close> or on the tar writer, so nothing was walked or written.
\<close>

theorem setup_errors_return_no_stream:
  "(\<exists>e. NewPatternMatcher E excludes = Inl e) \<or> sources = [] \<Longrightarrow>
     (\<exists>e. CreateTar E excludes sources = Inl e) \<and>
     CreateTar (E\<lparr>filepath_Abs := a, os_Lstat := l, tw_fail := f\<rparr>) excludes sources =
       CreateTar E excludes sources"
  by (auto simp: CreateTar_def split: sum.splits)

theorem setup_errors_return_no_stream_witness:
  "((\<exists>e. NewPatternMatcher exampleEnv [''!''] = Inl e) \<or> [''/ctx''] = []) \<and>
   (\<exists>e. CreateTar exampleEnv [''!''] [''/ctx''] = Inl e) \<and>
   ((\<exists>e. NewPatternMatcher exampleEnv [] = Inl e) \<or> ([]::string list) = []) \<and>
   (\<exists>e. CreateTar exampleEnv [] [] = Inl e)"
proof -
  have h1: "(\<exists>e. NewPatternMatcher exampleEnv [''!''] = Inl e) \<or> [''/ctx''] = []"
    by (simp add: exampleEnv_def exampleNewPatternMatcher_def)
  have h2: "(\<exists>e. NewPatternMatcher exampleEnv [] = Inl e) \<or> ([]::string list) = []"
    by simp
  show ?thesis
    using h1 h2 setup_errors_return_no_stream[OF h1] setup_errors_return_no_stream[OF h2]
    by blast
qed

text \<open>
  C8: every entry of the archive that \<open>CreateTar\<close> produces, whatever its kind (regular
  file, hard link, directory, symlink), has owner uid 0 and gid 0.
\<close>

theorem owner_reset_everywhere:
  "CreateTar E excludes sources = Inr rc \<Longrightarrow> \<forall>e \<in> set (rc_entries rc). Uid (fst e) = 0 \<and> Gid (fst e) = 0"
proof -
  assume a: "CreateTar E excludes sources = Inr rc"
  have "\<exists>st::wstate. zeroOwner (tw st) \<and> rc_entries rc = tw st"
  proof (rule CreateTar_invariant[of E excludes sources rc "\<lambda>s. zeroOwner (tw s)", OF a])
    show "\<And>name d s. zeroOwner (tw s) \<Longrightarrow> zeroOwner (tw (snd (addEntry (tw_fail E) name d s)))"
      by (rule addEntry_zeroOwner)
    show "zeroOwner (tw \<lparr>seen = Map.empty, tw = []\<rparr>)" by (simp add: zeroOwner_def)
  qed
  then show ?thesis by (auto simp: zeroOwner_def)
qed

theorem owner_reset_everywhere_witness:
  "CreateTar exampleEnv [] [''/ctx''] = Inr rcCtx \<and> length (rc_entries rcCtx) = 6 \<and>
   list_all (\<lambda>e. Uid (fst e) = 0 \<and> Gid (fst e) = 0) (rc_entries rcCtx)"
proof -
  have "length (rc_entries rcCtx) = 6" by (simp add: rcCtx_def)
  then show ?thesis
    using owner_reset_everywhere[OF example_run] example_run by (simp add: list_all_iff)
qed

text \<open>
  C9: the handler lets a request through without a log line when its Content-Type is
  \<open>application/x-tar\<close> or \<open>application/json\<close>, and with one log line when it is
  \<open>application/tar\<close>; any other value is answered with Bad Request when the request is a
  libpod request, and is logged and let through otherwise.
\<close>

theorem content_type_gate:
  "header ''Content-Type'' = Some (ct # rest) \<longrightarrow>
     (ct = ''application/x-tar'' \<or> ct = ''application/json''
        \<longrightarrow> KubePlay_contentType header isLibpod = Inr []) \<and>
     (ct = ''application/tar''
        \<longrightarrow> KubePlay_contentType header isLibpod = Inr [Infof ct]) \<and>
     (ct \<noteq> ''application/x-tar'' \<and> ct \<noteq> ''application/tar'' \<and> ct \<noteq> ''application/json''
        \<longrightarrow> KubePlay_contentType header True =
              Inl (BadRequest ''Content-Type'' ct (ErrContentType ct)) \<and>
            KubePlay_contentType header False = Inr [Infof ct])"
  by (auto simp: KubePlay_contentType_def)

theorem content_type_gate_witness:
  "exampleHeader ''application/x-tar'' ''Content-Type'' = Some [''application/x-tar''] \<and>
   KubePlay_contentType (exampleHeader ''application/x-tar'') True = Inr [] \<and>
   exampleHeader ''application/tar'' ''Content-Type'' = Some [''application/tar''] \<and>
   KubePlay_contentType (exampleHeader ''application/tar'') True = Inr [Infof ''application/tar''] \<and>
   exampleHeader ''text/plain'' ''Content-Type'' = Some [''text/plain''] \<and>
   KubePlay_contentType (exampleHeader ''text/plain'') True =
     Inl (BadRequest ''Content-Type'' ''text/plain'' (ErrContentType ''text/plain'')) \<and>
   KubePlay_contentType (exampleHeader ''text/plain'') False = Inr [Infof ''text/plain'']"
proof -
  have h1: "exampleHeader ''application/x-tar'' ''Content-Type'' = Some [''application/x-tar'']"
    and h2: "exampleHeader ''application/tar'' ''Content-Type'' = Some [''application/tar'']"
    and h3: "exampleHeader ''text/plain'' ''Content-Type'' = Some [''text/plain'']"
    by (simp_all add: exampleHeader_def)
  show ?thesis
    using h1 h2 h3
      content_type_gate[of "exampleHeader ''application/x-tar''" "''application/x-tar''" "[]" True]
      content_type_gate[of "exampleHeader ''application/tar''" "''application/tar''" "[]" True]
      content_type_gate[of "exampleHeader ''text/plain''" "''text/plain''" "[]" True]
    by simp
qed

text \<open>
  C10: in the archive that \<open>CreateTar\<close> returns, every hard-link entry names an earlier
  entry that is a regular file whose bytes were all written. The map changes only in a
  call on a regular file with more than one link whose identity it did not hold, whose
  name is not excluded, and that returned no error after appending the entry with the
  file's whole content; the map then sends that identity to the name of that entry.
\<close>

theorem link_targets_written_in_full:
  "(CreateTar E excludes sources = Inr rc \<and> j < length (rc_entries rc) \<and>
    Typeflag (fst (rc_entries rc ! j)) = TypeLink
      \<longrightarrow> (\<exists>k<j. Name (fst (rc_entries rc ! k)) = Linkname (fst (rc_entries rc ! j)) \<and>
                 Typeflag (fst (rc_entries rc ! k)) = TypeReg \<and>
                 Size (fst (rc_entries rc ! k)) = int (length (snd (rc_entries rc ! k))))) \<and>
   (walkFn wfail pm i source path dentry err st = (r, st') \<and> seen st' \<noteq> seen st
      \<longrightarrow> r = None \<and>
          (\<exists>s fopen content fcopy.
             dentry = Some (File (Inr s) fopen content fcopy) \<and> 1 < st_Nlink s \<and>
             seen st (Devino (st_Dev s) (st_Ino s)) = None \<and>
             seen st' = (seen st)(Devino (st_Dev s) (st_Ino s) \<mapsto> entryName i source path) \<and>
             tw st' = tw st @ [(\<lparr>Typeflag = TypeReg, Name = entryName i source path, Linkname = [],
                                  Size = int (length content), Uid = 0, Gid = 0\<rparr>, content)]) \<and>
          (IsAbs (entryName i source path) \<or> pm (entryName i source path) = Inr False))"
proof (intro conjI impI)
  assume a: "CreateTar E excludes sources = Inr rc \<and> j < length (rc_entries rc) \<and>
    Typeflag (fst (rc_entries rc ! j)) = TypeLink"
  then have "linksResolved (rc_entries rc)" using CreateTar_linksResolved by blast
  then show "\<exists>k<j. Name (fst (rc_entries rc ! k)) = Linkname (fst (rc_entries rc ! j)) \<and>
                 Typeflag (fst (rc_entries rc ! k)) = TypeReg \<and>
                 Size (fst (rc_entries rc ! k)) = int (length (snd (rc_entries rc ! k)))"
    using a unfolding linksResolved_def fullEntry_def by blast
next
  assume a: "walkFn wfail pm i source path dentry err st = (r, st') \<and> seen st' \<noteq> seen st"
  have all: "r = None \<and>
     (\<exists>s fopen content fcopy.
        dentry = Some (File (Inr s) fopen content fcopy) \<and> 1 < st_Nlink s \<and>
        seen st (Devino (st_Dev s) (st_Ino s)) = None \<and>
        seen st' = (seen st)(Devino (st_Dev s) (st_Ino s) \<mapsto> entryName i source path) \<and>
        tw st' = tw st @ [(\<lparr>Typeflag = TypeReg, Name = entryName i source path, Linkname = [],
                             Size = int (length content), Uid = 0, Gid = 0\<rparr>, content)]) \<and>
     (IsAbs (entryName i source path) \<or> pm (entryName i source path) = Inr False)"
    using walkFn_seen_change[of wfail pm i source path dentry err st r st'] a by blast
  show "r = None" using all by blast
  show "\<exists>s fopen content fcopy.
             dentry = Some (File (Inr s) fopen content fcopy) \<and> 1 < st_Nlink s \<and>
             seen st (Devino (st_Dev s) (st_Ino s)) = None \<and>
             seen st' = (seen st)(Devino (st_Dev s) (st_Ino s) \<mapsto> entryName i source path) \<and>
             tw st' = tw st @ [(\<lparr>Typeflag = TypeReg, Name = entryName i source path, Linkname = [],
                                  Size = int (length content), Uid = 0, Gid = 0\<rparr>, content)]"
    using all by blast
  show "IsAbs (entryName i source path) \<or> pm (entryName i source path) = Inr False"
    using all by blast
qed

theorem link_targets_written_in_full_witness:
  "CreateTar exampleEnv [] [''/ctx''] = Inr rcCtx \<and> 1 < length (rc_entries rcCtx) \<and>
   Typeflag (fst (rc_entries rcCtx ! 1)) = TypeLink \<and>
   (\<exists>k<1. Name (fst (rc_entries rcCtx ! k)) = Linkname (fst (rc_entries rcCtx ! 1)) \<and>
           Typeflag (fst (rc_entries rcCtx ! k)) = TypeReg \<and>
           Size (fst (rc_entries rcCtx ! k)) = int (length (snd (rc_entries rcCtx ! k)))) \<and>
   walkFn noFail (examplePM []) 0 ''/ctx'' ''/ctx/a.txt'' (Some exampleLinked) None initState =
     (None, afterA) \<and>
   seen afterA \<noteq> seen initState \<and>
   seen afterA = (seen initState)(Devino 1 10 \<mapsto> ''a.txt'') \<and>
   (IsAbs (entryName 0 ''/ctx'' ''/ctx/a.txt'') \<or>
    examplePM [] (entryName 0 ''/ctx'' ''/ctx/a.txt'') = Inr False)"
proof -
  have h1: "1 < length (rc_entries rcCtx)" "Typeflag (fst (rc_entries rcCtx ! 1)) = TypeLink"
    by (simp_all add: rcCtx_def)
  have h2: "walkFn noFail (examplePM []) 0 ''/ctx'' ''/ctx/a.txt'' (Some exampleLinked) None initState =
     (None, afterA)"
    using example_call_a(1) by (simp add: callFn_def exampleCall_def)
  have "seen afterA (Devino 1 10) \<noteq> seen initState (Devino 1 10)"
    by (simp add: afterA_def initState_def)
  then have h3: "seen afterA \<noteq> seen initState" by auto
  have h4: "seen afterA = (seen initState)(Devino 1 10 \<mapsto> ''a.txt'')"
    by (simp add: afterA_def initState_def)
  note t = link_targets_written_in_full[where E = exampleEnv and excludes = "[]"
      and sources = "[''/ctx'']" and rc = rcCtx and j = 1 and wfail = noFail and pm = "examplePM []"
      and i = 0 and source = "''/ctx''" and path = "''/ctx/a.txt''" and dentry = "Some exampleLinked"
      and err = None and st = initState and r = None and st' = afterA]
  show ?thesis
    using t h1 h2 h3 h4 example_run by simp
qed


end
